theory Spec2Isabelle
  imports Complex_Main "HOL-Library.Word"
begin

unbundle bit_operations_syntax

section \<open>Byte codec (src/utils/hexUtils.ts)\<close>

text \<open>
  A \<open>Uint8Array\<close> is a list of 8-bit words. A JavaScript \<open>number\<close> that the program only
  ever uses as an integer (counters, byte values, indices) is an \<open>int\<close>; the bitwise
  operators first convert their operands to 32-bit signed integers (\<open>ToInt32\<close>), which is
  written out. Strings are \<open>string\<close>; only ASCII characters matter, since every string
  that is parsed has first been stripped to hexadecimal digits. \<open>parseInt\<close> is exact
  for values below \<open>2 ^ 53\<close>; the model is exact for all.
\<close>

type_synonym byte = "8 word"

definition toInt32 :: "int \<Rightarrow> int" where
  "toInt32 v = (v + 2 ^ 31) mod 2 ^ 32 - 2 ^ 31"

definition isHexChar :: "char \<Rightarrow> bool" where
  \<comment> \<open>the character class \<open>[0-9A-Fa-f]\<close>\<close>
  "isHexChar c =
     (let n = (of_char c :: nat)
      in (48 \<le> n \<and> n \<le> 57) \<or> (65 \<le> n \<and> n \<le> 70) \<or> (97 \<le> n \<and> n \<le> 102))"

definition toUpperCase :: "char \<Rightarrow> char" where
  "toUpperCase c =
     (case map_of (zip ''abcdefghijklmnopqrstuvwxyz'' ''ABCDEFGHIJKLMNOPQRSTUVWXYZ'') c of
        Some u \<Rightarrow> u
      | None \<Rightarrow> c)"

definition stripNonHex :: "string \<Rightarrow> string" where
  \<comment> \<open>\<open>replace(/[^0-9A-Fa-f]/g, '')\<close>\<close>
  "stripNonHex input = filter isHexChar input"

definition cleanHexString :: "string \<Rightarrow> string" where
  "cleanHexString input = map toUpperCase (stripNonHex input)"

fun chunkPairs :: "string \<Rightarrow> string list" where
  \<comment> \<open>\<open>match(/.{1,2}/g)\<close> on a string of hexadecimal digits\<close>
  "chunkPairs (a # b # rest) = [a, b] # chunkPairs rest"
| "chunkPairs [a] = [[a]]"
| "chunkPairs [] = []"

fun joinSpace :: "string list \<Rightarrow> string" where
  \<comment> \<open>\<open>join(' ')\<close>\<close>
  "joinSpace [] = []"
| "joinSpace [x] = x"
| "joinSpace (x # y # ys) = x @ CHR '' '' # joinSpace (y # ys)"

definition formatHexString :: "string \<Rightarrow> string" where
  "formatHexString input = joinSpace (chunkPairs (cleanHexString input))"

definition digitValue :: "char \<Rightarrow> nat" where
  \<comment> \<open>the value \<open>parseInt(_, 16)\<close> gives one hexadecimal digit, of either case\<close>
  "digitValue c =
     (let n = (of_char c :: nat)
      in if n \<le> 57 then n - 48 else if n \<le> 70 then n - 55 else n - 87)"

definition parseInt16 :: "string \<Rightarrow> int option" where
  \<comment> \<open>\<open>parseInt(s, 16)\<close> on a string of hexadecimal digits; \<open>None\<close> is \<open>NaN\<close>\<close>
  "parseInt16 s =
     (if s = [] then None
      else Some (int (foldl (\<lambda>acc c. 16 * acc + digitValue c) 0 s)))"

datatype hex_error = InvalidHexStringLength

fun parsePairs :: "string \<Rightarrow> byte list" where
  \<comment> \<open>the loop \<open>for (i = 0; i < cleaned.length; i += 2)\<close> of \<open>hexToUint8Array\<close>\<close>
  "parsePairs (a # b # rest) = word_of_nat (16 * digitValue a + digitValue b) # parsePairs rest"
| "parsePairs [a] = []"
| "parsePairs [] = []"

definition hexToUint8Array :: "string \<Rightarrow> hex_error + byte list" where
  "hexToUint8Array hexString =
     (let cleaned = cleanHexString hexString
      in if length cleaned mod 2 \<noteq> 0 then Inl InvalidHexStringLength
         else Inr (parsePairs cleaned))"

definition hexDigit :: "nat \<Rightarrow> char" where
  \<comment> \<open>one upper-case digit of \<open>toString(16).toUpperCase()\<close>\<close>
  "hexDigit n = ''0123456789ABCDEF'' ! n"

definition byteToHex :: "byte \<Rightarrow> string" where
  \<comment> \<open>\<open>b.toString(16).padStart(2, '0').toUpperCase()\<close>\<close>
  "byteToHex b = [hexDigit (unat b div 16), hexDigit (unat b mod 16)]"

definition uint8ArrayToHex :: "byte list \<Rightarrow> string" where
  "uint8ArrayToHex buffer = joinSpace (map byteToHex buffer)"

definition bytesToDecimal :: "int \<Rightarrow> int \<Rightarrow> int" where
  \<comment> \<open>\<open>(highByte << 8) | lowByte\<close>\<close>
  "bytesToDecimal highByte lowByte = toInt32 (push_bit 8 (toInt32 highByte)) OR toInt32 lowByte"

definition decimalToBytes :: "int \<Rightarrow> int \<times> int" where
  \<comment> \<open>\<open>[(value >> 8) & 0xFF, value & 0xFF]\<close>\<close>
  "decimalToBytes val =
     (let high = drop_bit 8 (toInt32 val) AND 255;
          low = toInt32 val AND 255
      in (high, low))"

section \<open>Application state (src/App.tsx)\<close>

text \<open>
  The component's React state and refs that the sweep and framing logic reads or writes
  are one record, passed through every handler. The configuration the user edits between
  events is a second record, given to each handler as the closure it captured. Left out:
  the port object and its reader, the list of known ports, the elapsed-time display, the
  export history, log identifiers and timestamps. \<open>counter\<close> and \<open>counterRef\<close> always
  hold the same value and are one field. The step, the counter and the byte indices are
  integers, as the range texts and the index menus make them; a fractional step typed
  into the step field is outside the model.

  The transport is the environment: \<open>wire\<close> records, in order, every byte array handed to
  \<open>writer.write\<close> that was accepted, and each call that may write takes the outcome of the
  write (\<open>True\<close>: accepted) as an argument. A handler runs to completion before the next
  event is handled.

  The text of a log line is a constructor of \<open>log_data\<close>:
  \<open>Hex\<close> a hexadecimal dump, \<open>PortNotOpen\<close> "Port not open", \<open>SendFailed\<close> "Send failed: ...",
  \<open>SweepComplete\<close> "Sweep Complete.", \<open>TargetByteIndexOutOfBounds\<close> "Target Byte Index ... out
  of bounds", \<open>InvalidHexOrConfig\<close> "Invalid Hex or Config", \<open>InvalidStartEndHexValues\<close>
  "Invalid Start/End Hex values", \<open>StartingSweep\<close> "Starting Sweep: 0x... -> 0x..., Step: ...
  Expected Points: ...", \<open>Connected\<close>, \<open>ConnectionFailed\<close> and \<open>PortDisconnected\<close> the
  connection messages.
\<close>

datatype ConnectionStatus = DISCONNECTED | CONNECTING | CONNECTED | ERROR

datatype log_type = LogTx | LogRx | LogInfo | LogError

datatype log_data =
    Hex string
  | PortNotOpen
  | SendFailed
  | SweepComplete
  | TargetByteIndexOutOfBounds int
  | InvalidHexOrConfig
  | InvalidStartEndHexValues
  | StartingSweep string string int int
  | Connected
  | ConnectionFailed
  | PortDisconnected

record stats_rec =
  tx :: nat
  rx :: nat
  invalid :: nat

record config =
  sweepBaseHex :: string
  rangeStartHex :: string
  rangeEndHex :: string
  incrementStep :: int
  targetByteIndex :: int
  isBigEndian :: bool
  rxByteIndex :: nat
  rxIsBigEndian :: bool
  enableHeaderCheck :: bool

record state =
  status :: ConnectionStatus
  writer :: bool
  logs :: "(log_type \<times> log_data) list"
  chartData :: "(rat \<times> int) list"
  lastReceivedValue :: "int option"
  isRxInvalid :: bool
  stats :: stats_rec
  startTimeRef :: "nat option"
  isAutoSending :: bool
  isRetrying :: bool
  counterRef :: int
  pendingFrequencyRef :: "rat option"
  lastSentHexRef :: "string option"
  waitingForResponseRef :: bool
  rxBuffer :: "byte list"
  wire :: "byte list list"

definition initialState :: state where
  "initialState =
     \<lparr>status = DISCONNECTED, writer = False, logs = [], chartData = [],
      lastReceivedValue = None, isRxInvalid = False,
      stats = \<lparr>tx = 0, rx = 0, invalid = 0\<rparr>, startTimeRef = None,
      isAutoSending = False, isRetrying = False, counterRef = 0,
      pendingFrequencyRef = None, lastSentHexRef = None,
      waitingForResponseRef = False, rxBuffer = [], wire = []\<rparr>"

definition defaultConfig :: config where
  "defaultConfig =
     \<lparr>sweepBaseHex = ''05 43 46 0D 46 04 00 0D'', rangeStartHex = ''0000'',
      rangeEndHex = ''00C8'', incrementStep = 3, targetByteIndex = 3, isBigEndian = True,
      rxByteIndex = 6, rxIsBigEndian = True, enableHeaderCheck = True\<rparr>"

definition addLog :: "log_type \<Rightarrow> log_data \<Rightarrow> state \<Rightarrow> state" where
  "addLog kind entry s =
     (let newLogs = logs s @ [(kind, entry)]
      in s\<lparr>logs := (if length newLogs > 500 then drop (length newLogs - 500) newLogs
                      else newLogs)\<rparr>)"

definition openPort :: "bool \<Rightarrow> bool \<Rightarrow> state \<Rightarrow> state" where
  \<comment> \<open>\<open>opened\<close>: \<open>targetPort.open\<close> succeeded; \<open>writable\<close>: the port has a writable stream\<close>
  "openPort opened writable s =
     (if opened then
        addLog LogInfo Connected
          (s\<lparr>status := CONNECTED, writer := (if writable then True else writer s)\<rparr>)
          \<lparr>rxBuffer := []\<rparr>
      else addLog LogError ConnectionFailed (s\<lparr>status := ERROR\<rparr>))"

definition disconnectPort :: "bool \<Rightarrow> bool \<Rightarrow> state \<Rightarrow> state" where
  \<comment> \<open>\<open>cancelOk\<close>: \<open>reader.cancel\<close> did not throw; \<open>closeOk\<close>: \<open>port.close\<close> did not throw\<close>
  "disconnectPort cancelOk closeOk s =
     (let s1 = s\<lparr>isAutoSending := False\<rparr>
      in if \<not> cancelOk then s1\<lparr>status := DISCONNECTED\<rparr>
         else if \<not> closeOk then s1\<lparr>writer := False, status := DISCONNECTED\<rparr>
         else addLog LogInfo PortDisconnected (s1\<lparr>writer := False, status := DISCONNECTED\<rparr>))"

definition sendData :: "string \<Rightarrow> bool \<Rightarrow> state \<Rightarrow> state" where
  "sendData hexString writeOk s =
     (if \<not> writer s \<or> status s \<noteq> CONNECTED then addLog LogError PortNotOpen s
      else case hexToUint8Array hexString of
        Inl e \<Rightarrow> (addLog LogError SendFailed s)\<lparr>isAutoSending := False\<rparr>
      | Inr data \<Rightarrow>
          if writeOk then
            (let s1 = s\<lparr>wire := wire s @ [data]\<rparr>;
                 s2 = addLog LogTx (Hex (formatHexString hexString)) s1
             in s2\<lparr>stats := (stats s2)\<lparr>tx := tx (stats s2) + 1\<rparr>\<rparr>)
          else (addLog LogError SendFailed s)\<lparr>isAutoSending := False\<rparr>)"

subsection \<open>Frame reassembly\<close>

text \<open>
  \<open>pendingFrequencyRef\<close> holds \<open>(currentVal / 65536) * 32000\<close>. For an integer counter of
  magnitude below \<open>2 ^ 46\<close> both floating-point operations are exact, so the number is the
  rational \<open>currentVal * 125 / 256\<close>. \<open>toFixed(4)\<close> rounds the exact value to the nearest
  multiple of \<open>1 / 10000\<close>, a tie going away from zero, and gives the number's own digits
  at magnitude \<open>10 ^ 21\<close> and above; \<open>Number\<close> reads the digits back, which is modelled
  as the decimal value itself.
\<close>

definition numberToFixed4 :: "rat \<Rightarrow> rat" where
  \<comment> \<open>\<open>Number(x.toFixed(4))\<close>\<close>
  "numberToFixed4 x =
     (if 10 ^ 21 \<le> \<bar>x\<bar> then x
      else if x < 0 then - (of_int \<lfloor>(- x) * 10000 + 1 / 2\<rfloor> / 10000)
      else of_int \<lfloor>x * 10000 + 1 / 2\<rfloor> / 10000)"

definition parseAndRecord :: "config \<Rightarrow> int \<Rightarrow> int \<Rightarrow> state \<Rightarrow> state" where
  "parseAndRecord cfg b1 b2 s =
     (let receivedValue =
            (if rxIsBigEndian cfg then bytesToDecimal b1 b2 else bytesToDecimal b2 b1);
          s1 = s\<lparr>lastReceivedValue := Some receivedValue, isRxInvalid := False\<rparr>
      in case pendingFrequencyRef s1 of
           None \<Rightarrow> s1
         | Some pending \<Rightarrow>
             s1\<lparr>chartData := chartData s1 @ [(numberToFixed4 pending, receivedValue)]\<rparr>)"

definition HEADER :: "int list" where
  "HEADER = [0xFF, 0xFE, 0xFD, 0xFC, 0x02, 0x56]"

definition FOOTER :: "int list" where
  "FOOTER = [0xFB, 0xFA, 0xF9, 0xF8]"

definition PACKET_LEN :: nat where
  "PACKET_LEN = 15"

definition isHeader :: "byte list \<Rightarrow> nat \<Rightarrow> bool" where
  \<comment> \<open>the header loop: false at the first index that differs\<close>
  "isHeader buffer ptr =
     list_all (\<lambda>i. uint (buffer ! (ptr + i)) = HEADER ! i) [0..<length HEADER]"

definition isFooter :: "byte list \<Rightarrow> nat \<Rightarrow> bool" where
  "isFooter buffer ptr =
     list_all (\<lambda>i. uint (buffer ! (ptr + 11 + i)) = FOOTER ! i) [0..<length FOOTER]"

text \<open>
  The scan loop of \<open>processRxBuffer\<close>, with the code after the loop as its last branch.
  The loop condition \<open>ptr <= buffer.length - PACKET_LEN\<close> is false for a buffer shorter
  than a packet (the right-hand side is negative), hence the addition on the left here.
  Every index read is below \<open>ptr + PACKET_LEN\<close>, so inside the buffer. A valid packet
  returns from the function: \<open>packetFound\<close> is false whenever the loop ends.
\<close>

function processRxBuffer_loop :: "config \<Rightarrow> byte list \<Rightarrow> nat \<Rightarrow> state \<Rightarrow> state" where
  "processRxBuffer_loop cfg buffer ptr s =
     (if ptr + PACKET_LEN \<le> length buffer then
        if isHeader buffer ptr then
          if isFooter buffer ptr then
            (let b1 = uint (buffer ! (ptr + 6));
                 b2 = uint (buffer ! (ptr + 7));
                 val = (if rxIsBigEndian cfg then bytesToDecimal b1 b2
                        else bytesToDecimal b2 b1)
             in if val \<ge> 0 \<and> val \<le> 4096 then
                  (let s1 = parseAndRecord cfg b1 b2 s;
                       s2 = s1\<lparr>stats := (stats s1)\<lparr>rx := rx (stats s1) + 1\<rparr>\<rparr>;
                       s3 = s2\<lparr>waitingForResponseRef := False, isRetrying := False,
                               isRxInvalid := False\<rparr>
                   in s3\<lparr>rxBuffer := drop (ptr + PACKET_LEN) buffer\<rparr>)
                else
                  processRxBuffer_loop cfg buffer (ptr + PACKET_LEN)
                    (s\<lparr>stats := (stats s)\<lparr>invalid := invalid (stats s) + 1\<rparr>\<rparr>))
          else
            processRxBuffer_loop cfg buffer (ptr + 1)
              (s\<lparr>stats := (stats s)\<lparr>invalid := invalid (stats s) + 1\<rparr>\<rparr>)
        else processRxBuffer_loop cfg buffer (ptr + 1) s
      else
        (let s1 = (if ptr > 0 then s\<lparr>rxBuffer := drop ptr buffer\<rparr> else s)
         in if waitingForResponseRef s1
            then s1\<lparr>isRxInvalid := True, lastReceivedValue := None\<rparr>
            else s1))"
  by pat_completeness auto
termination
  by (relation "measure (\<lambda>(cfg, buffer, ptr, s). length buffer + PACKET_LEN - ptr)")
    (auto simp: PACKET_LEN_def)

declare processRxBuffer_loop.simps [simp del]

definition processRxBuffer :: "config \<Rightarrow> state \<Rightarrow> state" where
  "processRxBuffer cfg s = processRxBuffer_loop cfg (rxBuffer s) 0 s"

definition handleDataReceived :: "config \<Rightarrow> byte list \<Rightarrow> state \<Rightarrow> state" where
  "handleDataReceived cfg chunk s =
     (let s1 = addLog LogRx (Hex (uint8ArrayToHex chunk)) s;
          s2 = s1\<lparr>rxBuffer := rxBuffer s1 @ chunk\<rparr>
      in if enableHeaderCheck cfg then processRxBuffer cfg s2
         else if length (rxBuffer s2) > rxByteIndex cfg + 1 then
           (let b1 = uint (rxBuffer s2 ! rxByteIndex cfg);
                b2 = uint (rxBuffer s2 ! (rxByteIndex cfg + 1));
                s3 = parseAndRecord cfg b1 b2 s2;
                s4 = s3\<lparr>stats := (stats s3)\<lparr>rx := rx (stats s3) + 1\<rparr>\<rparr>
            in s4\<lparr>rxBuffer := []\<rparr>)
         else s2)"

subsection \<open>Sweep controller\<close>

definition totalSweepPoints :: "config \<Rightarrow> int" where
  "totalSweepPoints cfg =
     (case (parseInt16 (stripNonHex (rangeStartHex cfg)),
            parseInt16 (stripNonHex (rangeEndHex cfg))) of
        (Some startDec, Some endDec) \<Rightarrow>
          if incrementStep cfg \<le> 0 \<or> startDec > endDec then 0
          else (endDec - startDec) div incrementStep cfg + 1
      | _ \<Rightarrow> 0)"

text \<open>
  \<open>tickAutoSend\<close>. The only statement of its \<open>try\<close> block that can throw is the parse of
  the command template (\<open>sendData\<close> catches its own failures), so the \<open>catch\<close> clause is
  the \<open>Inl\<close> branch of that parse. A comparison with \<open>NaN\<close> is false. The writes into
  \<open>baseBytes\<close> are in range by the bounds check before them; the two bytes written are
  between 0 and 255, so turning the array back into a \<open>Uint8Array\<close> keeps them.
\<close>

definition tickAutoSend :: "config \<Rightarrow> bool \<Rightarrow> state \<Rightarrow> state" where
  "tickAutoSend cfg writeOk s =
     (if enableHeaderCheck cfg \<and> waitingForResponseRef s then
        (case lastSentHexRef s of
           None \<Rightarrow> s
         | Some lastSentHex \<Rightarrow>
             if lastSentHex \<noteq> [] then sendData lastSentHex writeOk (s\<lparr>isRetrying := True\<rparr>)
             else s)
      else
        (let s1 = s\<lparr>isRetrying := False\<rparr>;
             endValDecimal = parseInt16 (stripNonHex (rangeEndHex cfg))
         in if (case endValDecimal of None \<Rightarrow> False | Some e \<Rightarrow> counterRef s1 > e) then
              addLog LogInfo SweepComplete (s1\<lparr>isAutoSending := False\<rparr>)
            else
              case hexToUint8Array (sweepBaseHex cfg) of
                Inl e \<Rightarrow> addLog LogError InvalidHexOrConfig (s1\<lparr>isAutoSending := False\<rparr>)
              | Inr baseBytes \<Rightarrow>
                  if targetByteIndex cfg < 0
                     \<or> targetByteIndex cfg \<ge> int (length baseBytes) - 1 then
                    (addLog LogError (TargetByteIndexOutOfBounds (targetByteIndex cfg)) s1)
                      \<lparr>isAutoSending := False\<rparr>
                  else
                    (let currentVal = counterRef s1;
                         (high, low) = decimalToBytes currentVal;
                         i = nat (targetByteIndex cfg);
                         baseBytes' =
                           (if isBigEndian cfg
                            then baseBytes[i := word_of_int high, i + 1 := word_of_int low]
                            else baseBytes[i := word_of_int low, i + 1 := word_of_int high]);
                         frequency = (of_int currentVal / 65536) * 32000;
                         s2 = s1\<lparr>pendingFrequencyRef := Some frequency\<rparr>;
                         newHexStr = uint8ArrayToHex baseBytes';
                         s3 = s2\<lparr>lastSentHexRef := Some newHexStr\<rparr>;
                         s4 = sendData newHexStr writeOk s3;
                         s5 = (if enableHeaderCheck cfg
                               then s4\<lparr>waitingForResponseRef := True, isRxInvalid := False\<rparr>
                               else s4)
                     in s5\<lparr>counterRef := currentVal + incrementStep cfg\<rparr>)))"

definition autoSendTimer :: "config \<Rightarrow> bool \<Rightarrow> state \<Rightarrow> state" where
  \<comment> \<open>the interval runs \<open>tickAutoSend\<close> while \<open>isAutoSending && status === CONNECTED\<close>\<close>
  "autoSendTimer cfg writeOk s =
     (if isAutoSending s \<and> status s = CONNECTED then tickAutoSend cfg writeOk s else s)"

definition toggleAutoSend :: "config \<Rightarrow> nat \<Rightarrow> state \<Rightarrow> state" where
  \<comment> \<open>\<open>now\<close> is \<open>Date.now()\<close>\<close>
  "toggleAutoSend cfg now s =
     (if isAutoSending s then
        s\<lparr>isAutoSending := False, waitingForResponseRef := False, isRetrying := False,
          rxBuffer := [], startTimeRef := None\<rparr>
      else
        case (parseInt16 (stripNonHex (rangeStartHex cfg)),
              parseInt16 (stripNonHex (rangeEndHex cfg))) of
          (Some startDec, Some endDec) \<Rightarrow>
            addLog LogInfo
              (StartingSweep (rangeStartHex cfg) (rangeEndHex cfg) (incrementStep cfg)
                 (totalSweepPoints cfg))
              (s\<lparr>counterRef := startDec, chartData := [], pendingFrequencyRef := None,
                 waitingForResponseRef := False, isRetrying := False, isRxInvalid := False,
                 rxBuffer := [], stats := \<lparr>tx = 0, rx = 0, invalid = 0\<rparr>,
                 startTimeRef := Some now, isAutoSending := True\<rparr>)
        | _ \<Rightarrow> addLog LogError InvalidStartEndHexValues s)"

subsection \<open>Reachable states and example inputs\<close>

text \<open>
  Every state the application can be in: the initial state followed by any sequence of
  handler runs, with any configuration and any transport outcome at each. The user
  interface disables some handlers in some states; allowing them always only adds states.
\<close>

inductive reachable :: "state \<Rightarrow> bool" where
  reach_init: "reachable initialState"
| reach_open: "reachable s \<Longrightarrow> reachable (openPort opened writable s)"
| reach_disconnect: "reachable s \<Longrightarrow> reachable (disconnectPort cancelOk closeOk s)"
| reach_send: "reachable s \<Longrightarrow> reachable (sendData manualHex writeOk s)"
| reach_receive: "reachable s \<Longrightarrow> reachable (handleDataReceived cfg chunk s)"
| reach_tick: "reachable s \<Longrightarrow> reachable (tickAutoSend cfg writeOk s)"
| reach_toggle: "reachable s \<Longrightarrow> reachable (toggleAutoSend cfg now s)"

text \<open>
  A state stores a command when \<open>lastSentHexRef\<close> is the hexadecimal text of a non-empty
  byte array; before the first command is sent nothing is awaited.
\<close>

definition storedCommand :: "state \<Rightarrow> bool" where
  "storedCommand s \<longleftrightarrow>
     (\<exists>cmd. cmd \<noteq> [] \<and> lastSentHexRef s = Some (uint8ArrayToHex cmd))
     \<or> (lastSentHexRef s = None \<and> \<not> waitingForResponseRef s)"

definition packetValue :: "config \<Rightarrow> byte list \<Rightarrow> nat \<Rightarrow> int" where
  \<comment> \<open>names the value \<open>val\<close> that the scan decodes from the packet starting at \<open>ptr\<close>\<close>
  "packetValue cfg buffer ptr =
     (if rxIsBigEndian cfg
      then bytesToDecimal (uint (buffer ! (ptr + 6))) (uint (buffer ! (ptr + 7)))
      else bytesToDecimal (uint (buffer ! (ptr + 7))) (uint (buffer ! (ptr + 6))))"

definition exampleFrame :: "byte list" where
  \<comment> \<open>\<open>FF FE FD FC 02 56 00 64 AA BB CC FB FA F9 F8\<close>\<close>
  "exampleFrame =
     [0xFF, 0xFE, 0xFD, 0xFC, 0x02, 0x56, 0x00, 0x64, 0xAA, 0xBB, 0xCC, 0xFB, 0xFA, 0xF9, 0xF8]"

definition connectedState :: state where
  "connectedState = openPort True True initialState"

definition exampleWaiting :: state where
  \<comment> \<open>connected, sweep started with the default configuration, first command sent\<close>
  "exampleWaiting =
     tickAutoSend defaultConfig True (toggleAutoSend defaultConfig 0 connectedState)"

definition falseHeaderBuffer :: "byte list" where
  \<comment> \<open>a header with no footer behind it, then the example frame six bytes later\<close>
  "falseHeaderBuffer = [0xFF, 0xFE, 0xFD, 0xFC, 0x02, 0x56] @ exampleFrame"

definition lowFirstConfig :: config where
  "lowFirstConfig = defaultConfig\<lparr>rxIsBigEndian := False\<rparr>"

definition sweepFrom1 :: config where
  "sweepFrom1 = defaultConfig\<lparr>rangeStartHex := ''0001''\<rparr>"

definition startedAtOne :: state where
  "startedAtOne = toggleAutoSend sweepFrom1 0 connectedState"

definition waitingAtOne :: state where
  \<comment> \<open>the command for counter value 1 is on the wire and its reply is awaited\<close>
  "waitingAtOne = tickAutoSend sweepFrom1 True startedAtOne"

definition reversedRange :: config where
  \<comment> \<open>start \<open>0x0005\<close> above end \<open>0x0003\<close>\<close>
  "reversedRange = defaultConfig\<lparr>rangeStartHex := ''0005'', rangeEndHex := ''0003''\<rparr>"

definition sweep0to3 :: config where
  \<comment> \<open>start \<open>0x0000\<close>, end \<open>0x0003\<close>, step 3, no strict validation: no tick waits\<close>
  "sweep0to3 = defaultConfig\<lparr>rangeEndHex := ''0003'', enableHeaderCheck := False\<rparr>"

definition sweep0to3Strict :: config where
  "sweep0to3Strict = defaultConfig\<lparr>rangeEndHex := ''0003''\<rparr>"

definition sweepRun :: "nat \<Rightarrow> state" where
  \<comment> \<open>the sweep of \<open>sweep0to3\<close> after the timer has fired \<open>n\<close> times\<close>
  "sweepRun n = (autoSendTimer sweep0to3 True ^^ n) (toggleAutoSend sweep0to3 0 connectedState)"

definition strictRun :: "nat \<Rightarrow> state" where
  \<comment> \<open>the strict-mode sweep after \<open>n\<close> timer ticks, each answered by the example frame\<close>
  "strictRun n =
     ((\<lambda>s. handleDataReceived sweep0to3Strict exampleFrame
             (autoSendTimer sweep0to3Strict True s)) ^^ n)
       (toggleAutoSend sweep0to3Strict 0 connectedState)"

section \<open>Codec lemmas\<close>

lemma nibble_all:
  "list_all (\<lambda>n. isHexChar (hexDigit n) \<and> toUpperCase (hexDigit n) = hexDigit n
      \<and> digitValue (hexDigit n) = n) [0..<16]"
  by code_simp

lemma nibble:
  assumes "n < 16"
  shows isHexChar_hexDigit: "isHexChar (hexDigit n)"
    and toUpperCase_hexDigit: "toUpperCase (hexDigit n) = hexDigit n"
    and digitValue_hexDigit: "digitValue (hexDigit n) = n"
proof -
  from assms have "n \<in> set [0..<16]" by simp
  with nibble_all show "isHexChar (hexDigit n)" "toUpperCase (hexDigit n) = hexDigit n"
    "digitValue (hexDigit n) = n"
    unfolding list_all_iff by blast+
qed

lemma not_isHexChar_space: "\<not> isHexChar (CHR '' '')"
  by (simp add: isHexChar_def)

lemma unat_byte_div16: "unat (b :: byte) div 16 < 16"
proof -
  have "unat b < 2 ^ 8" using unsigned_less [of b] by simp
  then show ?thesis by simp
qed

lemma cleanHexString_append:
  "cleanHexString (xs @ ys) = cleanHexString xs @ cleanHexString ys"
  by (simp add: cleanHexString_def stripNonHex_def)

lemma cleanHexString_space: "cleanHexString (CHR '' '' # xs) = cleanHexString xs"
  by (simp add: cleanHexString_def stripNonHex_def not_isHexChar_space)

lemma cleanHexString_byteToHex: "cleanHexString (byteToHex b) = byteToHex b"
  by (simp add: cleanHexString_def stripNonHex_def byteToHex_def isHexChar_hexDigit
      toUpperCase_hexDigit unat_byte_div16)

lemma uint8ArrayToHex_Cons:
  "uint8ArrayToHex (b # bs) =
     byteToHex b @ (if bs = [] then [] else CHR '' '' # uint8ArrayToHex bs)"
  by (cases bs) (simp_all add: uint8ArrayToHex_def)

lemma cleanHexString_uint8ArrayToHex:
  "cleanHexString (uint8ArrayToHex bs) = concat (map byteToHex bs)"
proof (induction bs)
  case Nil
  show ?case by (simp add: uint8ArrayToHex_def cleanHexString_def stripNonHex_def)
next
  case (Cons b bs)
  then show ?case
    by (simp add: uint8ArrayToHex_Cons cleanHexString_append cleanHexString_space
        cleanHexString_byteToHex)
       (simp add: cleanHexString_def stripNonHex_def)
qed

lemma parse_byteToHex:
  "parsePairs (byteToHex b @ rest) = b # parsePairs rest"
proof -
  have "16 * (unat b div 16) + unat b mod 16 = unat b" by presburger
  then show ?thesis
    by (simp add: byteToHex_def digitValue_hexDigit unat_byte_div16)
qed

lemma parsePairs_concat: "parsePairs (concat (map byteToHex bs)) = bs"
  by (induction bs) (simp_all add: parse_byteToHex)

lemma length_concat_byteToHex: "length (concat (map byteToHex bs)) = 2 * length bs"
  by (induction bs) (simp_all add: byteToHex_def)

lemma hexToUint8Array_uint8ArrayToHex: "hexToUint8Array (uint8ArrayToHex bs) = Inr bs"
  by (simp add: hexToUint8Array_def cleanHexString_uint8ArrayToHex parsePairs_concat
      length_concat_byteToHex)

lemma uint8ArrayToHex_nonempty: "bs \<noteq> [] \<Longrightarrow> uint8ArrayToHex bs \<noteq> []"
  by (cases bs) (simp_all add: uint8ArrayToHex_Cons byteToHex_def)

section \<open>Handlers and the fields they leave alone\<close>

lemma addLog_fields [simp]:
  "status (addLog k e s) = status s"
  "writer (addLog k e s) = writer s"
  "chartData (addLog k e s) = chartData s"
  "lastReceivedValue (addLog k e s) = lastReceivedValue s"
  "isRxInvalid (addLog k e s) = isRxInvalid s"
  "stats (addLog k e s) = stats s"
  "startTimeRef (addLog k e s) = startTimeRef s"
  "isAutoSending (addLog k e s) = isAutoSending s"
  "isRetrying (addLog k e s) = isRetrying s"
  "counterRef (addLog k e s) = counterRef s"
  "pendingFrequencyRef (addLog k e s) = pendingFrequencyRef s"
  "lastSentHexRef (addLog k e s) = lastSentHexRef s"
  "waitingForResponseRef (addLog k e s) = waitingForResponseRef s"
  "rxBuffer (addLog k e s) = rxBuffer s"
  "wire (addLog k e s) = wire s"
  by (simp_all add: addLog_def Let_def)

lemma last_logs_addLog: "last (logs (addLog k e s)) = (k, e)"
  by (simp add: addLog_def Let_def last_drop)

lemma sendData_fields [simp]:
  "status (sendData h w s) = status s"
  "writer (sendData h w s) = writer s"
  "chartData (sendData h w s) = chartData s"
  "lastReceivedValue (sendData h w s) = lastReceivedValue s"
  "isRxInvalid (sendData h w s) = isRxInvalid s"
  "startTimeRef (sendData h w s) = startTimeRef s"
  "isRetrying (sendData h w s) = isRetrying s"
  "counterRef (sendData h w s) = counterRef s"
  "pendingFrequencyRef (sendData h w s) = pendingFrequencyRef s"
  "lastSentHexRef (sendData h w s) = lastSentHexRef s"
  "waitingForResponseRef (sendData h w s) = waitingForResponseRef s"
  "rxBuffer (sendData h w s) = rxBuffer s"
  "rx (stats (sendData h w s)) = rx (stats s)"
  "invalid (stats (sendData h w s)) = invalid (stats s)"
  by (simp_all add: sendData_def Let_def split: sum.splits)

lemma sendData_accepted:
  assumes "writer s" "status s = CONNECTED" "hexToUint8Array h = Inr bytes"
  shows "sendData h True s =
     (addLog LogTx (Hex (formatHexString h)) s)
       \<lparr>wire := wire s @ [bytes], stats := (stats s)\<lparr>tx := tx (stats s) + 1\<rparr>\<rparr>"
  using assms by (simp add: sendData_def Let_def addLog_def)

lemma parseAndRecord_fields [simp]:
  "lastSentHexRef (parseAndRecord cfg b1 b2 s) = lastSentHexRef s"
  "pendingFrequencyRef (parseAndRecord cfg b1 b2 s) = pendingFrequencyRef s"
  "counterRef (parseAndRecord cfg b1 b2 s) = counterRef s"
  "wire (parseAndRecord cfg b1 b2 s) = wire s"
  "waitingForResponseRef (parseAndRecord cfg b1 b2 s) = waitingForResponseRef s"
  "stats (parseAndRecord cfg b1 b2 s) = stats s"
  "status (parseAndRecord cfg b1 b2 s) = status s"
  "writer (parseAndRecord cfg b1 b2 s) = writer s"
  "isAutoSending (parseAndRecord cfg b1 b2 s) = isAutoSending s"
  "isRetrying (parseAndRecord cfg b1 b2 s) = isRetrying s"
  "rxBuffer (parseAndRecord cfg b1 b2 s) = rxBuffer s"
  "logs (parseAndRecord cfg b1 b2 s) = logs s"
  "startTimeRef (parseAndRecord cfg b1 b2 s) = startTimeRef s"
  by (simp_all add: parseAndRecord_def Let_def split: option.splits)

lemma scan_induct [case_names step]:
  assumes "\<And>ptr s.
     (\<And>s'. ptr + PACKET_LEN \<le> length buffer \<Longrightarrow> P (Suc ptr) s') \<Longrightarrow>
     (\<And>s'. ptr + PACKET_LEN \<le> length buffer \<Longrightarrow> P (ptr + PACKET_LEN) s') \<Longrightarrow> P ptr s"
  shows "P ptr s"
proof (induction "length buffer + PACKET_LEN - ptr" arbitrary: ptr s rule: less_induct)
  case less
  show ?case
  proof (rule assms)
    fix s' assume "ptr + PACKET_LEN \<le> length buffer"
    then show "P (Suc ptr) s'" by (intro less) (simp add: PACKET_LEN_def)
  next
    fix s' assume "ptr + PACKET_LEN \<le> length buffer"
    then show "P (ptr + PACKET_LEN) s'" by (intro less) (simp add: PACKET_LEN_def)
  qed
qed

lemma loop_done:
  "\<not> ptr + PACKET_LEN \<le> length buffer \<Longrightarrow>
   processRxBuffer_loop cfg buffer ptr s =
     (let s1 = (if ptr > 0 then s\<lparr>rxBuffer := drop ptr buffer\<rparr> else s)
      in if waitingForResponseRef s1 then s1\<lparr>isRxInvalid := True, lastReceivedValue := None\<rparr>
         else s1)"
  by (subst processRxBuffer_loop.simps) simp

lemma loop_skip:
  "ptr + PACKET_LEN \<le> length buffer \<Longrightarrow> \<not> isHeader buffer ptr \<Longrightarrow>
   processRxBuffer_loop cfg buffer ptr s = processRxBuffer_loop cfg buffer (Suc ptr) s"
  by (subst processRxBuffer_loop.simps) simp

lemma loop_badFooter:
  "ptr + PACKET_LEN \<le> length buffer \<Longrightarrow> isHeader buffer ptr \<Longrightarrow> \<not> isFooter buffer ptr \<Longrightarrow>
   processRxBuffer_loop cfg buffer ptr s =
     processRxBuffer_loop cfg buffer (Suc ptr)
       (s\<lparr>stats := (stats s)\<lparr>invalid := invalid (stats s) + 1\<rparr>\<rparr>)"
  by (subst processRxBuffer_loop.simps) simp

lemma loop_badRange:
  "ptr + PACKET_LEN \<le> length buffer \<Longrightarrow> isHeader buffer ptr \<Longrightarrow> isFooter buffer ptr \<Longrightarrow>
   \<not> (0 \<le> packetValue cfg buffer ptr \<and> packetValue cfg buffer ptr \<le> 4096) \<Longrightarrow>
   processRxBuffer_loop cfg buffer ptr s =
     processRxBuffer_loop cfg buffer (ptr + PACKET_LEN)
       (s\<lparr>stats := (stats s)\<lparr>invalid := invalid (stats s) + 1\<rparr>\<rparr>)"
  by (subst processRxBuffer_loop.simps) (cases "rxIsBigEndian cfg"; auto simp: packetValue_def Let_def)

lemma loop_valid:
  "ptr + PACKET_LEN \<le> length buffer \<Longrightarrow> isHeader buffer ptr \<Longrightarrow> isFooter buffer ptr \<Longrightarrow>
   0 \<le> packetValue cfg buffer ptr \<and> packetValue cfg buffer ptr \<le> 4096 \<Longrightarrow>
   processRxBuffer_loop cfg buffer ptr s =
     (parseAndRecord cfg (uint (buffer ! (ptr + 6))) (uint (buffer ! (ptr + 7))) s)
       \<lparr>stats := (stats s)\<lparr>rx := rx (stats s) + 1\<rparr>,
        waitingForResponseRef := False, isRetrying := False, isRxInvalid := False,
        rxBuffer := drop (ptr + PACKET_LEN) buffer\<rparr>"
  by (subst processRxBuffer_loop.simps) (cases "rxIsBigEndian cfg"; auto simp: packetValue_def Let_def)

lemma loop_cases [case_names atEnd skip badFooter badRange valid]:
  obtains "\<not> ptr + PACKET_LEN \<le> length buffer"
  | "ptr + PACKET_LEN \<le> length buffer" "\<not> isHeader buffer ptr"
  | "ptr + PACKET_LEN \<le> length buffer" "isHeader buffer ptr" "\<not> isFooter buffer ptr"
  | "ptr + PACKET_LEN \<le> length buffer" "isHeader buffer ptr" "isFooter buffer ptr"
      "\<not> (0 \<le> packetValue cfg buffer ptr \<and> packetValue cfg buffer ptr \<le> 4096)"
  | "ptr + PACKET_LEN \<le> length buffer" "isHeader buffer ptr" "isFooter buffer ptr"
      "0 \<le> packetValue cfg buffer ptr \<and> packetValue cfg buffer ptr \<le> 4096"
  by blast

lemma loop_lastSentHexRef [simp]:
  "lastSentHexRef (processRxBuffer_loop cfg buffer ptr s) = lastSentHexRef s"
proof (induction ptr s rule: scan_induct [where buffer = buffer])
  case (step ptr s)
  show ?case
    by (cases rule: loop_cases [where ptr = ptr and buffer = buffer and cfg = cfg])
      (simp_all add: loop_done loop_skip loop_badFooter loop_badRange loop_valid step Let_def)
qed

lemma loop_waiting:
  "waitingForResponseRef (processRxBuffer_loop cfg buffer ptr s) \<Longrightarrow> waitingForResponseRef s"
proof (induction ptr s rule: scan_induct [where buffer = buffer])
  case (step ptr s)
  show ?case
  proof (cases rule: loop_cases [where ptr = ptr and buffer = buffer and cfg = cfg])
    case atEnd
    with step.prems show ?thesis by (simp add: loop_done Let_def split: if_splits)
  next
    case skip
    with step.prems step.IH(1) show ?thesis by (simp add: loop_skip)
  next
    case badFooter
    with step.prems step.IH(1) [of "s\<lparr>stats := (stats s)\<lparr>invalid := invalid (stats s) + 1\<rparr>\<rparr>"]
    show ?thesis by (simp add: loop_badFooter)
  next
    case badRange
    with step.prems step.IH(2) [of "s\<lparr>stats := (stats s)\<lparr>invalid := invalid (stats s) + 1\<rparr>\<rparr>"]
    show ?thesis by (simp add: loop_badRange)
  next
    case valid
    with step.prems show ?thesis by (simp add: loop_valid)
  qed
qed

lemma handleDataReceived_lastSentHexRef [simp]:
  "lastSentHexRef (handleDataReceived cfg chunk s) = lastSentHexRef s"
  by (simp add: handleDataReceived_def processRxBuffer_def Let_def)

lemma handleDataReceived_waiting:
  "waitingForResponseRef (handleDataReceived cfg chunk s) \<Longrightarrow> waitingForResponseRef s"
  by (auto simp: handleDataReceived_def processRxBuffer_def Let_def
      dest: loop_waiting split: if_splits)

lemma toggleAutoSend_lastSentHexRef [simp]:
  "lastSentHexRef (toggleAutoSend cfg now s) = lastSentHexRef s"
  by (simp add: toggleAutoSend_def split: option.splits)

lemma toggleAutoSend_waiting:
  "waitingForResponseRef (toggleAutoSend cfg now s) \<Longrightarrow> waitingForResponseRef s"
  by (auto simp: toggleAutoSend_def split: option.splits if_splits)

lemma tickAutoSend_retry:
  assumes "enableHeaderCheck cfg" and "waitingForResponseRef s"
    and "lastSentHexRef s = Some h" and "h \<noteq> []"
  shows "tickAutoSend cfg writeOk s = sendData h writeOk (s\<lparr>isRetrying := True\<rparr>)"
  using assms by (simp add: tickAutoSend_def)

lemma tickAutoSend_send:
  assumes "\<not> (enableHeaderCheck cfg \<and> waitingForResponseRef s)"
    and "\<forall>e. parseInt16 (stripNonHex (rangeEndHex cfg)) = Some e \<longrightarrow> counterRef s \<le> e"
    and "hexToUint8Array (sweepBaseHex cfg) = Inr baseBytes"
    and "0 \<le> targetByteIndex cfg" and "targetByteIndex cfg < int (length baseBytes) - 1"
    and "decimalToBytes (counterRef s) = (high, low)"
    and "i = nat (targetByteIndex cfg)"
    and "cmd = (if isBigEndian cfg
                then baseBytes[i := word_of_int high, i + 1 := word_of_int low]
                else baseBytes[i := word_of_int low, i + 1 := word_of_int high])"
  shows "tickAutoSend cfg writeOk s =
     (let s4 = sendData (uint8ArrayToHex cmd) writeOk
                 (s\<lparr>isRetrying := False,
                    pendingFrequencyRef := Some ((of_int (counterRef s) / 65536) * 32000),
                    lastSentHexRef := Some (uint8ArrayToHex cmd)\<rparr>);
          s5 = (if enableHeaderCheck cfg
                then s4\<lparr>waitingForResponseRef := True, isRxInvalid := False\<rparr>
                else s4)
      in s5\<lparr>counterRef := counterRef s + incrementStep cfg\<rparr>)"
proof (cases "parseInt16 (stripNonHex (rangeEndHex cfg))")
  case None
  with assms show ?thesis
    by (cases "enableHeaderCheck cfg") (simp_all add: tickAutoSend_def Let_def)
next
  case (Some e)
  with assms(2) have "\<not> counterRef s > e" by simp
  with Some assms show ?thesis
    by (cases "enableHeaderCheck cfg") (simp_all add: tickAutoSend_def Let_def)
qed

lemma tickAutoSend_no_send:
  assumes "\<not> (enableHeaderCheck cfg \<and> waitingForResponseRef s)"
    and "(\<exists>e. parseInt16 (stripNonHex (rangeEndHex cfg)) = Some e \<and> counterRef s > e)
         \<or> (\<exists>e. hexToUint8Array (sweepBaseHex cfg) = Inl e)
         \<or> (\<exists>baseBytes. hexToUint8Array (sweepBaseHex cfg) = Inr baseBytes
              \<and> (targetByteIndex cfg < 0 \<or> targetByteIndex cfg \<ge> int (length baseBytes) - 1))"
  shows "lastSentHexRef (tickAutoSend cfg writeOk s) = lastSentHexRef s
    \<and> waitingForResponseRef (tickAutoSend cfg writeOk s) = waitingForResponseRef s
    \<and> pendingFrequencyRef (tickAutoSend cfg writeOk s) = pendingFrequencyRef s
    \<and> counterRef (tickAutoSend cfg writeOk s) = counterRef s
    \<and> wire (tickAutoSend cfg writeOk s) = wire s
    \<and> \<not> isAutoSending (tickAutoSend cfg writeOk s)"
  using assms
  by (cases "enableHeaderCheck cfg"; cases "parseInt16 (stripNonHex (rangeEndHex cfg))";
      cases "hexToUint8Array (sweepBaseHex cfg)")
    (auto simp: tickAutoSend_def Let_def)

lemma tickAutoSend_storedCommand:
  assumes "storedCommand s"
  shows "storedCommand (tickAutoSend cfg writeOk s)"
proof (cases "enableHeaderCheck cfg \<and> waitingForResponseRef s")
  case True
  with assms show ?thesis
    by (auto simp: storedCommand_def tickAutoSend_def split: option.splits)
next
  case False
  show ?thesis
  proof (cases "(\<exists>e. parseInt16 (stripNonHex (rangeEndHex cfg)) = Some e \<and> counterRef s > e)
         \<or> (\<exists>e. hexToUint8Array (sweepBaseHex cfg) = Inl e)
         \<or> (\<exists>baseBytes. hexToUint8Array (sweepBaseHex cfg) = Inr baseBytes
              \<and> (targetByteIndex cfg < 0 \<or> targetByteIndex cfg \<ge> int (length baseBytes) - 1))")
    case True
    from tickAutoSend_no_send [OF False True, of writeOk] assms show ?thesis
      by (simp add: storedCommand_def)
  next
    case noStop: False
    then obtain baseBytes where base: "hexToUint8Array (sweepBaseHex cfg) = Inr baseBytes"
      by (cases "hexToUint8Array (sweepBaseHex cfg)") auto
    with noStop have idx: "0 \<le> targetByteIndex cfg"
        "targetByteIndex cfg < int (length baseBytes) - 1"
      by auto
    from noStop have range:
      "\<forall>e. parseInt16 (stripNonHex (rangeEndHex cfg)) = Some e \<longrightarrow> counterRef s \<le> e"
      by auto
    obtain high low where hl: "decimalToBytes (counterRef s) = (high, low)"
      by (cases "decimalToBytes (counterRef s)")
    define i where "i = nat (targetByteIndex cfg)"
    define cmd where "cmd = (if isBigEndian cfg
                then baseBytes[i := word_of_int high, i + 1 := word_of_int low]
                else baseBytes[i := word_of_int low, i + 1 := word_of_int high])"
    have "lastSentHexRef (tickAutoSend cfg writeOk s) = Some (uint8ArrayToHex cmd)"
      by (simp add: tickAutoSend_send [OF False range base idx hl i_def cmd_def] Let_def)
    moreover have "cmd \<noteq> []" using idx by (auto simp: cmd_def)
    ultimately show ?thesis unfolding storedCommand_def by blast
  qed
qed

lemma reachable_storedCommand: "reachable s \<Longrightarrow> storedCommand s"
proof (induction rule: reachable.induct)
  case reach_init
  show ?case by (simp add: storedCommand_def initialState_def)
next
  case (reach_open s opened writable)
  then show ?case by (simp add: storedCommand_def openPort_def)
next
  case (reach_disconnect s cancelOk closeOk)
  then show ?case by (simp add: storedCommand_def disconnectPort_def Let_def)
next
  case (reach_send s manualHex writeOk)
  then show ?case by (simp add: storedCommand_def)
next
  case (reach_receive s cfg chunk)
  then show ?case
    using handleDataReceived_waiting [of cfg chunk s] by (auto simp: storedCommand_def)
next
  case (reach_tick s cfg writeOk)
  from reach_tick.IH show ?case by (rule tickAutoSend_storedCommand)
next
  case (reach_toggle s cfg now)
  then show ?case
    using toggleAutoSend_waiting [of cfg now s] by (auto simp: storedCommand_def)
qed

section \<open>Example states\<close>

lemma exampleWaiting_eq:
  "exampleWaiting =
  \<lparr>status = CONNECTED, writer = True,
    logs =
      [(LogInfo, Connected),
       (LogInfo, StartingSweep ''0000'' ''00C8'' 3 67),
       (LogTx, Hex ''05 43 46 00 00 04 00 0D'')],
    chartData = [], lastReceivedValue = None, isRxInvalid = False,
    stats = \<lparr>tx = 1, rx = 0, invalid = 0\<rparr>, startTimeRef = Some 0,
    isAutoSending = True, isRetrying = False, counterRef = 3,
    pendingFrequencyRef = Some 0,
    lastSentHexRef = Some ''05 43 46 00 00 04 00 0D'',
    waitingForResponseRef = True, rxBuffer = [],
    wire = [[5, 67, 70, 0, 0, 4, 0, 13]]\<rparr>"
  by code_simp

lemma reachable_exampleWaiting: "reachable exampleWaiting"
  unfolding exampleWaiting_def connectedState_def by (intro reachable.intros)

lemma defaultConfig_strict: "enableHeaderCheck defaultConfig"
  by (simp add: defaultConfig_def)

section \<open>The retry path\<close>

lemma retry_ticks:
  assumes strict: "enableHeaderCheck cfg"
    and cmd: "lastSentHexRef s = Some (uint8ArrayToHex cmd)" "cmd \<noteq> []"
    and s: "waitingForResponseRef s" "writer s" "status s = CONNECTED"
  shows "wire ((tickAutoSend cfg True ^^ n) s) = wire s @ replicate n cmd
    \<and> tx (stats ((tickAutoSend cfg True ^^ n) s)) = tx (stats s) + n
    \<and> counterRef ((tickAutoSend cfg True ^^ n) s) = counterRef s
    \<and> pendingFrequencyRef ((tickAutoSend cfg True ^^ n) s) = pendingFrequencyRef s
    \<and> lastSentHexRef ((tickAutoSend cfg True ^^ n) s) = lastSentHexRef s
    \<and> waitingForResponseRef ((tickAutoSend cfg True ^^ n) s)
    \<and> writer ((tickAutoSend cfg True ^^ n) s)
    \<and> status ((tickAutoSend cfg True ^^ n) s) = CONNECTED
    \<and> (0 < n \<longrightarrow> isRetrying ((tickAutoSend cfg True ^^ n) s))"
proof (induction n)
  case 0
  from s show ?case by simp
next
  case (Suc n)
  let ?s' = "(tickAutoSend cfg True ^^ n) s"
  have ne: "uint8ArrayToHex cmd \<noteq> []" using cmd(2) by (rule uint8ArrayToHex_nonempty)
  from Suc cmd(1) have last: "lastSentHexRef ?s' = Some (uint8ArrayToHex cmd)" by simp
  from Suc have w: "waitingForResponseRef ?s'" by simp
  have "tickAutoSend cfg True ?s' = sendData (uint8ArrayToHex cmd) True (?s'\<lparr>isRetrying := True\<rparr>)"
    by (rule tickAutoSend_retry [OF strict w last ne])
  also have "\<dots> = (addLog LogTx (Hex (formatHexString (uint8ArrayToHex cmd)))
        (?s'\<lparr>isRetrying := True\<rparr>))
       \<lparr>wire := wire ?s' @ [cmd], stats := (stats ?s')\<lparr>tx := tx (stats ?s') + 1\<rparr>\<rparr>"
    using Suc by (simp add: sendData_accepted hexToUint8Array_uint8ArrayToHex)
  finally have step: "(tickAutoSend cfg True ^^ Suc n) s =
      (addLog LogTx (Hex (formatHexString (uint8ArrayToHex cmd))) (?s'\<lparr>isRetrying := True\<rparr>))
       \<lparr>wire := wire ?s' @ [cmd], stats := (stats ?s')\<lparr>tx := tx (stats ?s') + 1\<rparr>\<rparr>"
    by simp
  from Suc show ?case
    unfolding step by (simp add: replicate_append_same)
qed

text \<open>
  Claim C5. In strict-validation mode a tick that fires while \<open>waitingForResponseRef\<close> is
  set writes again exactly the bytes of the stored last command, sets \<open>isRetrying\<close>, and
  neither advances the counter nor sets a new pending frequency; the same holds for every
  further tick, for as long as nothing clears the flag. Stated for every reachable state
  with an open port whose writes are accepted: after \<open>n\<close> ticks the transport has received
  \<open>n\<close> more copies of the command, and counter, pending frequency, stored command and
  the waiting flag are what they were.
\<close>

theorem retry_until_answered:
  assumes "reachable s" and "enableHeaderCheck cfg" and "waitingForResponseRef s"
    and "writer s" and "status s = CONNECTED"
  shows "\<exists>cmd. lastSentHexRef s = Some (uint8ArrayToHex cmd) \<and>
    (\<forall>n. wire ((tickAutoSend cfg True ^^ n) s) = wire s @ replicate n cmd
       \<and> counterRef ((tickAutoSend cfg True ^^ n) s) = counterRef s
       \<and> pendingFrequencyRef ((tickAutoSend cfg True ^^ n) s) = pendingFrequencyRef s
       \<and> lastSentHexRef ((tickAutoSend cfg True ^^ n) s) = lastSentHexRef s
       \<and> waitingForResponseRef ((tickAutoSend cfg True ^^ n) s)
       \<and> (0 < n \<longrightarrow> isRetrying ((tickAutoSend cfg True ^^ n) s)))"
proof -
  from assms(1) have "storedCommand s" by (rule reachable_storedCommand)
  with assms(3) obtain cmd where cmd: "cmd \<noteq> []" "lastSentHexRef s = Some (uint8ArrayToHex cmd)"
    unfolding storedCommand_def by blast
  from retry_ticks [OF assms(2) cmd(2) cmd(1) assms(3-5)] cmd(2) show ?thesis by blast
qed

theorem retry_until_answered_witness:
  "reachable exampleWaiting \<and> enableHeaderCheck defaultConfig
   \<and> waitingForResponseRef exampleWaiting \<and> writer exampleWaiting
   \<and> status exampleWaiting = CONNECTED
   \<and> wire ((tickAutoSend defaultConfig True ^^ 2) exampleWaiting) =
       [[5, 67, 70, 0, 0, 4, 0, 13], [5, 67, 70, 0, 0, 4, 0, 13], [5, 67, 70, 0, 0, 4, 0, 13]]
   \<and> counterRef ((tickAutoSend defaultConfig True ^^ 2) exampleWaiting) = 3"
proof -
  have h: "waitingForResponseRef exampleWaiting" "writer exampleWaiting"
    "status exampleWaiting = CONNECTED"
    by (simp_all add: exampleWaiting_eq)
  from retry_until_answered [OF reachable_exampleWaiting defaultConfig_strict h]
  obtain cmd where cmd: "lastSentHexRef exampleWaiting = Some (uint8ArrayToHex cmd)"
    and ticks: "wire ((tickAutoSend defaultConfig True ^^ 2) exampleWaiting) =
        wire exampleWaiting @ replicate 2 cmd"
      "counterRef ((tickAutoSend defaultConfig True ^^ 2) exampleWaiting) = counterRef exampleWaiting"
    by blast
  have "hexToUint8Array (uint8ArrayToHex cmd) = hexToUint8Array ''05 43 46 00 00 04 00 0D''"
    using cmd by (simp add: exampleWaiting_eq)
  moreover have "hexToUint8Array ''05 43 46 00 00 04 00 0D'' = Inr [5, 67, 70, 0, 0, 4, 0, 13]"
    by code_simp
  ultimately have "cmd = [5, 67, 70, 0, 0, 4, 0, 13]"
    by (simp add: hexToUint8Array_uint8ArrayToHex)
  with ticks have "wire ((tickAutoSend defaultConfig True ^^ 2) exampleWaiting) =
       [[5, 67, 70, 0, 0, 4, 0, 13], [5, 67, 70, 0, 0, 4, 0, 13], [5, 67, 70, 0, 0, 4, 0, 13]]"
    "counterRef ((tickAutoSend defaultConfig True ^^ 2) exampleWaiting) = 3"
    by (simp_all add: exampleWaiting_eq numeral_2_eq_2)
  with reachable_exampleWaiting defaultConfig_strict h show ?thesis by blast
qed

text \<open>
  Claim C9, as the code has it. A tick through the retry path (strict validation, a
  response awaited, a stored last command) leaves the counter, the pending frequency, the
  stored command, the waiting flag, the chart and the valid and invalid receive counts
  as they were and sets \<open>isRetrying\<close>, whatever the transport does. The transmit count
  counts accepted writes only:
  \<^item> port open and write accepted: the state afterwards is the state before with
    \<open>isRetrying\<close> set, the transmit count one higher, the command on the wire and a line
    more in the log, and nothing else changed, so retransmissions count as transmissions;
  \<^item> no writer or port not connected: nothing is written, the transmit count stays, and
    only \<open>isRetrying\<close> and the log change;
  \<^item> port open but the stored text does not parse or the write is rejected: nothing is
    written, the transmit count stays, and \<open>isAutoSending\<close> is cleared.
\<close>

theorem retry_tick_frame:
  assumes "enableHeaderCheck cfg" and "waitingForResponseRef s"
    and "lastSentHexRef s = Some h" and "h \<noteq> []"
  shows "counterRef (tickAutoSend cfg writeOk s) = counterRef s
    \<and> pendingFrequencyRef (tickAutoSend cfg writeOk s) = pendingFrequencyRef s
    \<and> lastSentHexRef (tickAutoSend cfg writeOk s) = lastSentHexRef s
    \<and> waitingForResponseRef (tickAutoSend cfg writeOk s)
    \<and> chartData (tickAutoSend cfg writeOk s) = chartData s
    \<and> rx (stats (tickAutoSend cfg writeOk s)) = rx (stats s)
    \<and> invalid (stats (tickAutoSend cfg writeOk s)) = invalid (stats s)
    \<and> isRetrying (tickAutoSend cfg writeOk s)
    \<and> (writer s \<and> status s = CONNECTED \<and> hexToUint8Array h = Inr bytes \<and> writeOk \<longrightarrow>
         tickAutoSend cfg writeOk s =
           s\<lparr>isRetrying := True, wire := wire s @ [bytes],
             stats := (stats s)\<lparr>tx := tx (stats s) + 1\<rparr>,
             logs := logs (tickAutoSend cfg writeOk s)\<rparr>)
    \<and> (\<not> (writer s \<and> status s = CONNECTED) \<longrightarrow>
         tickAutoSend cfg writeOk s =
           s\<lparr>isRetrying := True, logs := logs (tickAutoSend cfg writeOk s)\<rparr>
         \<and> last (logs (tickAutoSend cfg writeOk s)) = (LogError, PortNotOpen))
    \<and> (writer s \<and> status s = CONNECTED
          \<and> ((\<exists>e. hexToUint8Array h = Inl e) \<or> \<not> writeOk) \<longrightarrow>
         tickAutoSend cfg writeOk s =
           s\<lparr>isRetrying := True, isAutoSending := False,
             logs := logs (tickAutoSend cfg writeOk s)\<rparr>
         \<and> last (logs (tickAutoSend cfg writeOk s)) = (LogError, SendFailed))"
proof -
  let ?s' = "tickAutoSend cfg writeOk s"
  let ?r = "s\<lparr>isRetrying := True\<rparr>"
  have t: "?s' = sendData h writeOk ?r"
    using assms by (rule tickAutoSend_retry)
  have unchanged: "counterRef ?s' = counterRef s \<and> pendingFrequencyRef ?s' = pendingFrequencyRef s
      \<and> lastSentHexRef ?s' = lastSentHexRef s \<and> waitingForResponseRef ?s'
      \<and> chartData ?s' = chartData s \<and> rx (stats ?s') = rx (stats s)
      \<and> invalid (stats ?s') = invalid (stats s) \<and> isRetrying ?s'"
    using assms(2) by (simp add: t)
  have sent: "?s' = s\<lparr>isRetrying := True, wire := wire s @ [bytes],
        stats := (stats s)\<lparr>tx := tx (stats s) + 1\<rparr>, logs := logs ?s'\<rparr>"
    if "writer s \<and> status s = CONNECTED \<and> hexToUint8Array h = Inr bytes \<and> writeOk"
  proof -
    have "tickAutoSend cfg True s = sendData h True ?r"
      using assms by (rule tickAutoSend_retry)
    also have "\<dots> = (addLog LogTx (Hex (formatHexString h)) ?r)
        \<lparr>wire := wire s @ [bytes], stats := (stats s)\<lparr>tx := tx (stats s) + 1\<rparr>\<rparr>"
      using that by (simp add: sendData_accepted)
    finally show ?thesis
      using that by (simp add: addLog_def Let_def)
  qed
  have closed: "?s' = s\<lparr>isRetrying := True, logs := logs ?s'\<rparr>
      \<and> last (logs ?s') = (LogError, PortNotOpen)"
    if "\<not> (writer s \<and> status s = CONNECTED)"
  proof -
    from that have "sendData h writeOk ?r = addLog LogError PortNotOpen ?r"
      by (auto simp: sendData_def)
    with t have e: "?s' = addLog LogError PortNotOpen ?r" by simp
    have "addLog LogError PortNotOpen ?r =
        s\<lparr>isRetrying := True, logs := logs (addLog LogError PortNotOpen ?r)\<rparr>"
      by (simp add: addLog_def Let_def)
    then show ?thesis
      unfolding e by (simp add: last_logs_addLog)
  qed
  have rejected: "?s' = s\<lparr>isRetrying := True, isAutoSending := False, logs := logs ?s'\<rparr>
      \<and> last (logs ?s') = (LogError, SendFailed)"
    if "writer s \<and> status s = CONNECTED \<and> ((\<exists>e. hexToUint8Array h = Inl e) \<or> \<not> writeOk)"
  proof -
    from that have "sendData h writeOk ?r =
        (addLog LogError SendFailed ?r)\<lparr>isAutoSending := False\<rparr>"
      by (cases "hexToUint8Array h") (auto simp: sendData_def)
    with t have e: "?s' = (addLog LogError SendFailed ?r)\<lparr>isAutoSending := False\<rparr>" by simp
    have "(addLog LogError SendFailed ?r)\<lparr>isAutoSending := False\<rparr> =
        s\<lparr>isRetrying := True, isAutoSending := False,
          logs := logs ((addLog LogError SendFailed ?r)\<lparr>isAutoSending := False\<rparr>)\<rparr>"
      by (simp add: addLog_def Let_def)
    then show ?thesis
      unfolding e by (simp add: last_logs_addLog)
  qed
  from unchanged sent closed rejected show ?thesis by blast
qed

theorem retry_tick_frame_witness:
  "enableHeaderCheck defaultConfig \<and> waitingForResponseRef exampleWaiting
   \<and> lastSentHexRef exampleWaiting = Some ''05 43 46 00 00 04 00 0D''
   \<and> writer exampleWaiting \<and> status exampleWaiting = CONNECTED
   \<and> isAutoSending exampleWaiting
   \<and> tx (stats exampleWaiting) = 1
   \<and> tx (stats (tickAutoSend defaultConfig True exampleWaiting)) = 2
   \<and> wire (tickAutoSend defaultConfig True exampleWaiting) =
        [[5, 67, 70, 0, 0, 4, 0, 13], [5, 67, 70, 0, 0, 4, 0, 13]]
   \<and> counterRef (tickAutoSend defaultConfig True exampleWaiting) = 3
   \<and> isRetrying (tickAutoSend defaultConfig True exampleWaiting)
   \<and> isAutoSending (tickAutoSend defaultConfig True exampleWaiting)
   \<and> tx (stats (tickAutoSend defaultConfig False exampleWaiting)) = 1
   \<and> wire (tickAutoSend defaultConfig False exampleWaiting) = [[5, 67, 70, 0, 0, 4, 0, 13]]
   \<and> \<not> isAutoSending (tickAutoSend defaultConfig False exampleWaiting)
   \<and> tx (stats (tickAutoSend defaultConfig True (exampleWaiting\<lparr>writer := False\<rparr>))) = 1
   \<and> wire (tickAutoSend defaultConfig True (exampleWaiting\<lparr>writer := False\<rparr>)) =
        [[5, 67, 70, 0, 0, 4, 0, 13]]
   \<and> isAutoSending (tickAutoSend defaultConfig True (exampleWaiting\<lparr>writer := False\<rparr>))"
proof -
  let ?h = "''05 43 46 00 00 04 00 0D''"
  let ?c = "[5, 67, 70, 0, 0, 4, 0, 13] :: byte list"
  let ?nw = "exampleWaiting\<lparr>writer := False\<rparr>"
  have h: "waitingForResponseRef exampleWaiting" "lastSentHexRef exampleWaiting = Some ?h"
    "?h \<noteq> []"
    by (simp_all add: exampleWaiting_eq)
  have hn: "waitingForResponseRef ?nw" "lastSentHexRef ?nw = Some ?h"
    by (simp_all add: exampleWaiting_eq)
  have o: "writer exampleWaiting" "status exampleWaiting = CONNECTED"
    "isAutoSending exampleWaiting" "tx (stats exampleWaiting) = 1"
    by (simp_all add: exampleWaiting_eq)
  have parse: "hexToUint8Array ?h = Inr ?c" by code_simp
  from retry_tick_frame [OF defaultConfig_strict h, of True ?c] o parse
  have acc: "tickAutoSend defaultConfig True exampleWaiting =
      exampleWaiting\<lparr>isRetrying := True, wire := wire exampleWaiting @ [?c],
        stats := (stats exampleWaiting)\<lparr>tx := tx (stats exampleWaiting) + 1\<rparr>,
        logs := logs (tickAutoSend defaultConfig True exampleWaiting)\<rparr>"
    by blast
  from retry_tick_frame [OF defaultConfig_strict h, of False ?c] o
  have rej: "tickAutoSend defaultConfig False exampleWaiting =
      exampleWaiting\<lparr>isRetrying := True, isAutoSending := False,
        logs := logs (tickAutoSend defaultConfig False exampleWaiting)\<rparr>"
    by blast
  have "\<not> (writer ?nw \<and> status ?nw = CONNECTED)" by simp
  with retry_tick_frame [OF defaultConfig_strict hn h(3), of True ?c]
  have shut: "tickAutoSend defaultConfig True ?nw =
      ?nw\<lparr>isRetrying := True, logs := logs (tickAutoSend defaultConfig True ?nw)\<rparr>"
    by blast
  have a: "tx (stats (tickAutoSend defaultConfig True exampleWaiting)) = 2"
    "wire (tickAutoSend defaultConfig True exampleWaiting) = [?c, ?c]"
    "counterRef (tickAutoSend defaultConfig True exampleWaiting) = 3"
    "isRetrying (tickAutoSend defaultConfig True exampleWaiting)"
    "isAutoSending (tickAutoSend defaultConfig True exampleWaiting)"
    by (subst acc, simp add: exampleWaiting_eq)+
  have r: "tx (stats (tickAutoSend defaultConfig False exampleWaiting)) = 1"
    "wire (tickAutoSend defaultConfig False exampleWaiting) = [?c]"
    "\<not> isAutoSending (tickAutoSend defaultConfig False exampleWaiting)"
    by (subst rej, simp add: exampleWaiting_eq)+
  have n: "tx (stats (tickAutoSend defaultConfig True ?nw)) = 1"
    "wire (tickAutoSend defaultConfig True ?nw) = [?c]"
    "isAutoSending (tickAutoSend defaultConfig True ?nw)"
    by (subst shut, simp add: exampleWaiting_eq)+
  from defaultConfig_strict h(1,2) o a r n show ?thesis by blast
qed

text \<open>
  The claim as first stated (every tick through the retry path adds one to the transmit
  count and changes nothing but that and \<open>isRetrying\<close>) fails when the write is rejected:
  the transmit count stays at 1, nothing reaches the wire and the sweep is stopped.
\<close>

theorem retry_tick_rejected_write_counterexample:
  "enableHeaderCheck defaultConfig \<and> waitingForResponseRef exampleWaiting
   \<and> lastSentHexRef exampleWaiting = Some ''05 43 46 00 00 04 00 0D''
   \<and> isAutoSending exampleWaiting \<and> tx (stats exampleWaiting) = 1
   \<and> tx (stats (tickAutoSend defaultConfig False exampleWaiting)) = 1
   \<and> wire (tickAutoSend defaultConfig False exampleWaiting) = wire exampleWaiting
   \<and> \<not> isAutoSending (tickAutoSend defaultConfig False exampleWaiting)"
  by code_simp

section \<open>Encoding the counter\<close>






section \<open>The strict-mode scan\<close>

lemma uint_byte_eq:
  assumes "0 \<le> k" and "k < 256"
  shows "uint (b :: byte) = k \<longleftrightarrow> b = word_of_int k"
proof
  assume "uint b = k"
  then show "b = word_of_int k" by (metis word_of_int_uint)
next
  assume "b = word_of_int k"
  with assms show "uint b = k" by (simp add: uint_word_of_int)
qed

lemma list_of_length_6: "length xs = 6 \<Longrightarrow> \<exists>a b c d e f. xs = [a, b, c, d, e, f]"
  by (auto simp: length_Suc_conv numeral_eq_Suc)

lemma list_of_length_4: "length xs = 4 \<Longrightarrow> \<exists>a b c d. xs = [a, b, c, d]"
  by (auto simp: length_Suc_conv numeral_eq_Suc)

lemma isHeader_iff:
  assumes "ptr + 6 \<le> length buffer"
  shows "isHeader buffer ptr \<longleftrightarrow>
    take 6 (drop ptr buffer) = [0xFF, 0xFE, 0xFD, 0xFC, 0x02, 0x56]"
proof -
  have "length (take 6 (drop ptr buffer)) = 6" using assms by simp
  then obtain a b c d e f where abc: "take 6 (drop ptr buffer) = [a, b, c, d, e, f]"
    using list_of_length_6 by blast
  have "isHeader buffer ptr \<longleftrightarrow>
      list_all (\<lambda>i. uint (take 6 (drop ptr buffer) ! i) = HEADER ! i) [0..<length HEADER]"
    unfolding isHeader_def list_all_iff using assms by (simp add: HEADER_def)
  also have "\<dots> \<longleftrightarrow>
      uint a = 0xFF \<and> uint b = 0xFE \<and> uint c = 0xFD \<and> uint d = 0xFC \<and> uint e = 0x02 \<and> uint f = 0x56"
    by (simp add: abc HEADER_def)
  finally show ?thesis by (simp add: abc uint_byte_eq)
qed

lemma isFooter_iff:
  assumes "ptr + 15 \<le> length buffer"
  shows "isFooter buffer ptr \<longleftrightarrow> take 4 (drop (ptr + 11) buffer) = [0xFB, 0xFA, 0xF9, 0xF8]"
proof -
  have "length (take 4 (drop (ptr + 11) buffer)) = 4" using assms by simp
  then obtain a b c d where abc: "take 4 (drop (ptr + 11) buffer) = [a, b, c, d]"
    using list_of_length_4 by blast
  have "isFooter buffer ptr \<longleftrightarrow>
      list_all (\<lambda>i. uint (take 4 (drop (ptr + 11) buffer) ! i) = FOOTER ! i) [0..<length FOOTER]"
    unfolding isFooter_def list_all_iff using assms by (simp add: FOOTER_def)
  also have "\<dots> \<longleftrightarrow> uint a = 0xFB \<and> uint b = 0xFA \<and> uint c = 0xF9 \<and> uint d = 0xF8"
    by (simp add: abc FOOTER_def)
  finally show ?thesis by (simp add: abc uint_byte_eq)
qed

text \<open>
  Claim C6. In strict mode, where the six header bytes match at the scan pointer (with a
  whole packet length left in the buffer) and the four bytes at offset 11 are not the
  footer, the scan counts one invalid packet, records no measurement for that position,
  and goes on from the next byte, \<open>ptr + 1\<close>, not from \<open>ptr + PACKET_LEN\<close>: the scan from
  \<open>ptr\<close> is the scan from \<open>ptr + 1\<close> of the state whose invalid count is one higher.
\<close>

theorem footer_mismatch_resumes_next_byte:
  assumes "ptr + PACKET_LEN \<le> length buffer"
    and "take 6 (drop ptr buffer) = [0xFF, 0xFE, 0xFD, 0xFC, 0x02, 0x56]"
    and "take 4 (drop (ptr + 11) buffer) \<noteq> [0xFB, 0xFA, 0xF9, 0xF8]"
  shows "processRxBuffer_loop cfg buffer ptr s =
     processRxBuffer_loop cfg buffer (ptr + 1)
       (s\<lparr>stats := (stats s)\<lparr>invalid := invalid (stats s) + 1\<rparr>\<rparr>)"
proof -
  from assms(1) have len: "ptr + 6 \<le> length buffer" "ptr + 15 \<le> length buffer"
    by (simp_all add: PACKET_LEN_def)
  from assms(2) have h: "isHeader buffer ptr" by (simp add: isHeader_iff [OF len(1)])
  from assms(3) have f: "\<not> isFooter buffer ptr" by (simp add: isFooter_iff [OF len(2)])
  from loop_badFooter [OF assms(1) h f] show ?thesis by simp
qed

lemma falseHeaderBuffer_scan:
  "processRxBuffer_loop defaultConfig falseHeaderBuffer (0 + 1)
     (connectedState\<lparr>stats := (stats connectedState)\<lparr>invalid := invalid (stats connectedState) + 1\<rparr>\<rparr>) =
   connectedState\<lparr>stats := \<lparr>tx = 0, rx = 1, invalid = 1\<rparr>, lastReceivedValue := Some 100,
     rxBuffer := []\<rparr>"
  by code_simp

theorem footer_mismatch_resumes_next_byte_witness:
  "0 + PACKET_LEN \<le> length falseHeaderBuffer
   \<and> take 6 (drop 0 falseHeaderBuffer) = [0xFF, 0xFE, 0xFD, 0xFC, 0x02, 0x56]
   \<and> take 4 (drop (0 + 11) falseHeaderBuffer) \<noteq> [0xFB, 0xFA, 0xF9, 0xF8]
   \<and> processRxBuffer_loop defaultConfig falseHeaderBuffer 0 connectedState =
       connectedState\<lparr>stats := \<lparr>tx = 0, rx = 1, invalid = 1\<rparr>, lastReceivedValue := Some 100,
         rxBuffer := []\<rparr>"
proof -
  have h: "0 + PACKET_LEN \<le> length falseHeaderBuffer"
    "take 6 (drop 0 falseHeaderBuffer) = [0xFF, 0xFE, 0xFD, 0xFC, 0x02, 0x56]"
    "take 4 (drop (0 + 11) falseHeaderBuffer) \<noteq> [0xFB, 0xFA, 0xF9, 0xF8]"
    by (simp_all add: falseHeaderBuffer_def exampleFrame_def PACKET_LEN_def)
  from footer_mismatch_resumes_next_byte [OF h, of defaultConfig connectedState]
  have "processRxBuffer_loop defaultConfig falseHeaderBuffer 0 connectedState =
       connectedState\<lparr>stats := \<lparr>tx = 0, rx = 1, invalid = 1\<rparr>, lastReceivedValue := Some 100,
         rxBuffer := []\<rparr>"
    by (simp only: falseHeaderBuffer_scan)
  with h show ?thesis by blast
qed

lemma exampleFrame_facts:
  "length exampleFrame = 15" "isHeader exampleFrame 0" "isFooter exampleFrame 0"
  "uint (exampleFrame ! 6) = 0" "uint (exampleFrame ! 7) = 100"
  "drop PACKET_LEN exampleFrame = []"
  by (simp_all add: exampleFrame_def isHeader_def isFooter_def HEADER_def FOOTER_def PACKET_LEN_def)

lemma bytesToDecimal_example: "bytesToDecimal 0 100 = 100" "bytesToDecimal 100 0 = 25600"
  by (simp_all add: bytesToDecimal_def toInt32_def)

section \<open>Receiving a frame\<close>

lemma handleDataReceived_strict:
  assumes "enableHeaderCheck cfg"
  shows "handleDataReceived cfg chunk s =
     processRxBuffer_loop cfg (rxBuffer s @ chunk) 0
       ((addLog LogRx (Hex (uint8ArrayToHex chunk)) s)\<lparr>rxBuffer := rxBuffer s @ chunk\<rparr>)"
  using assms by (simp add: handleDataReceived_def processRxBuffer_def Let_def)

lemma valid_packet_effects:
  assumes "ptr + PACKET_LEN \<le> length buffer" and "isHeader buffer ptr" and "isFooter buffer ptr"
    and "0 \<le> packetValue cfg buffer ptr \<and> packetValue cfg buffer ptr \<le> 4096"
  shows "\<not> waitingForResponseRef (processRxBuffer_loop cfg buffer ptr s)"
    and "\<not> isRetrying (processRxBuffer_loop cfg buffer ptr s)"
    and "\<not> isRxInvalid (processRxBuffer_loop cfg buffer ptr s)"
    and "stats (processRxBuffer_loop cfg buffer ptr s) = (stats s)\<lparr>rx := rx (stats s) + 1\<rparr>"
    and "lastReceivedValue (processRxBuffer_loop cfg buffer ptr s) = Some (packetValue cfg buffer ptr)"
    and "rxBuffer (processRxBuffer_loop cfg buffer ptr s) = drop (ptr + PACKET_LEN) buffer"
    and "pendingFrequencyRef (processRxBuffer_loop cfg buffer ptr s) = pendingFrequencyRef s"
    and "counterRef (processRxBuffer_loop cfg buffer ptr s) = counterRef s"
    and "chartData (processRxBuffer_loop cfg buffer ptr s) =
      (case pendingFrequencyRef s of
         None \<Rightarrow> chartData s
       | Some f \<Rightarrow> chartData s @ [(numberToFixed4 f, packetValue cfg buffer ptr)])"
  by (simp_all add: loop_valid [OF assms] parseAndRecord_def packetValue_def Let_def
      split: option.splits)

text \<open>
  Claim C3, as the code has it. In strict mode, on an empty receive buffer, the frame
  \<open>FF FE FD FC 02 56 00 64 AA BB CC FB FA F9 F8\<close> gives, with the high byte first, one
  valid measurement of value 100 and leaves the buffer empty. With the low byte first the
  payload decodes to 25600 (\<open>0x6400\<close>), which is above 4096: the packet is counted as
  invalid, no measurement is recorded, and the buffer is left empty as well.
\<close>

theorem exampleFrame_ingest:
  assumes "enableHeaderCheck cfg" and "rxBuffer s = []"
  shows "(rxIsBigEndian cfg \<longrightarrow>
            lastReceivedValue (handleDataReceived cfg exampleFrame s) = Some 100
          \<and> rx (stats (handleDataReceived cfg exampleFrame s)) = rx (stats s) + 1
          \<and> invalid (stats (handleDataReceived cfg exampleFrame s)) = invalid (stats s)
          \<and> \<not> waitingForResponseRef (handleDataReceived cfg exampleFrame s)
          \<and> rxBuffer (handleDataReceived cfg exampleFrame s) = [])
       \<and> (\<not> rxIsBigEndian cfg \<longrightarrow>
            packetValue cfg exampleFrame 0 = 25600
          \<and> lastReceivedValue (handleDataReceived cfg exampleFrame s) =
              (if waitingForResponseRef s then None else lastReceivedValue s)
          \<and> rx (stats (handleDataReceived cfg exampleFrame s)) = rx (stats s)
          \<and> invalid (stats (handleDataReceived cfg exampleFrame s)) = invalid (stats s) + 1
          \<and> chartData (handleDataReceived cfg exampleFrame s) = chartData s
          \<and> waitingForResponseRef (handleDataReceived cfg exampleFrame s) = waitingForResponseRef s
          \<and> rxBuffer (handleDataReceived cfg exampleFrame s) = [])"
proof -
  let ?s2 = "(addLog LogRx (Hex (uint8ArrayToHex exampleFrame)) s)\<lparr>rxBuffer := exampleFrame\<rparr>"
  have run: "handleDataReceived cfg exampleFrame s = processRxBuffer_loop cfg exampleFrame 0 ?s2"
    using assms by (simp add: handleDataReceived_strict)
  have len: "0 + PACKET_LEN \<le> length exampleFrame"
    by (simp add: exampleFrame_facts PACKET_LEN_def)
  have high: ?thesis if big: "rxIsBigEndian cfg"
  proof -
    from big have v: "packetValue cfg exampleFrame 0 = 100"
      by (simp add: packetValue_def exampleFrame_facts bytesToDecimal_example)
    then have ok: "0 \<le> packetValue cfg exampleFrame 0 \<and> packetValue cfg exampleFrame 0 \<le> 4096"
      by simp
    note e = valid_packet_effects [OF len exampleFrame_facts(2,3) ok, of ?s2]
    from big show ?thesis
      unfolding run by (simp add: e v exampleFrame_facts)
  qed
  have low: ?thesis if little: "\<not> rxIsBigEndian cfg"
  proof -
    from little have v: "packetValue cfg exampleFrame 0 = 25600"
      by (simp add: packetValue_def exampleFrame_facts bytesToDecimal_example)
    then have bad: "\<not> (0 \<le> packetValue cfg exampleFrame 0 \<and> packetValue cfg exampleFrame 0 \<le> 4096)"
      by simp
    have "processRxBuffer_loop cfg exampleFrame 0 ?s2 =
        processRxBuffer_loop cfg exampleFrame (0 + PACKET_LEN)
          (?s2\<lparr>stats := (stats ?s2)\<lparr>invalid := invalid (stats ?s2) + 1\<rparr>\<rparr>)"
      by (rule loop_badRange [OF len exampleFrame_facts(2,3) bad])
    also have "\<dots> =
       (let s1 = ?s2\<lparr>stats := (stats ?s2)\<lparr>invalid := invalid (stats ?s2) + 1\<rparr>,
                     rxBuffer := drop (0 + PACKET_LEN) exampleFrame\<rparr>
        in if waitingForResponseRef s1 then s1\<lparr>isRxInvalid := True, lastReceivedValue := None\<rparr>
           else s1)"
      by (subst loop_done) (simp_all add: exampleFrame_facts PACKET_LEN_def)
    finally show ?thesis
      using little unfolding run by (simp add: v exampleFrame_facts Let_def)
  qed
  from high low show ?thesis by blast
qed

lemma connectedState_eq:
  "connectedState =
     \<lparr>status = CONNECTED, writer = True, logs = [(LogInfo, Connected)], chartData = [],
      lastReceivedValue = None, isRxInvalid = False,
      stats = \<lparr>tx = 0, rx = 0, invalid = 0\<rparr>, startTimeRef = None,
      isAutoSending = False, isRetrying = False, counterRef = 0,
      pendingFrequencyRef = None, lastSentHexRef = None,
      waitingForResponseRef = False, rxBuffer = [], wire = []\<rparr>"
  by code_simp

lemma config_facts:
  "enableHeaderCheck defaultConfig" "rxIsBigEndian defaultConfig"
  "enableHeaderCheck lowFirstConfig" "\<not> rxIsBigEndian lowFirstConfig"
  "enableHeaderCheck sweepFrom1" "rxIsBigEndian sweepFrom1"
  by (simp_all add: defaultConfig_def lowFirstConfig_def sweepFrom1_def)

lemma numberToFixed4_example: "numberToFixed4 (125 / 256) = 4883 / 10000"
  by code_simp


lemma waitingAtOne_eq:
  "waitingAtOne =
     \<lparr>status = CONNECTED, writer = True,
      logs = [(LogInfo, Connected), (LogInfo, StartingSweep ''0001'' ''00C8'' 3 67),
              (LogTx, Hex ''05 43 46 00 01 04 00 0D'')],
      chartData = [], lastReceivedValue = None, isRxInvalid = False,
      stats = \<lparr>tx = 1, rx = 0, invalid = 0\<rparr>, startTimeRef = Some 0,
      isAutoSending = True, isRetrying = False, counterRef = 4,
      pendingFrequencyRef = Some (125 / 256),
      lastSentHexRef = Some ''05 43 46 00 01 04 00 0D'',
      waitingForResponseRef = True, rxBuffer = [],
      wire = [[5, 67, 70, 0, 1, 4, 0, 13]]\<rparr>"
  by code_simp


lemma packetValue_exampleFrame: "rxIsBigEndian cfg \<Longrightarrow> packetValue cfg exampleFrame 0 = 100"
  by (simp add: packetValue_def exampleFrame_facts bytesToDecimal_example)

theorem exampleFrame_ingest_witness:
  "enableHeaderCheck defaultConfig \<and> rxIsBigEndian defaultConfig
   \<and> enableHeaderCheck lowFirstConfig \<and> \<not> rxIsBigEndian lowFirstConfig
   \<and> rxBuffer connectedState = []
   \<and> lastReceivedValue (handleDataReceived defaultConfig exampleFrame connectedState) = Some 100
   \<and> rx (stats (handleDataReceived defaultConfig exampleFrame connectedState)) = 1
   \<and> rxBuffer (handleDataReceived defaultConfig exampleFrame connectedState) = []
   \<and> lastReceivedValue (handleDataReceived lowFirstConfig exampleFrame connectedState) = None
   \<and> rx (stats (handleDataReceived lowFirstConfig exampleFrame connectedState)) = 0
   \<and> invalid (stats (handleDataReceived lowFirstConfig exampleFrame connectedState)) = 1
   \<and> rxBuffer (handleDataReceived lowFirstConfig exampleFrame connectedState) = []"
proof -
  have e: "rxBuffer connectedState = []" by (simp add: connectedState_eq)
  from exampleFrame_ingest [OF config_facts(1) e] config_facts(2)
  have high: "lastReceivedValue (handleDataReceived defaultConfig exampleFrame connectedState) = Some 100"
    "rx (stats (handleDataReceived defaultConfig exampleFrame connectedState)) = 1"
    "rxBuffer (handleDataReceived defaultConfig exampleFrame connectedState) = []"
    by (simp_all add: connectedState_eq)
  from exampleFrame_ingest [OF config_facts(3) e] config_facts(4)
  have low: "lastReceivedValue (handleDataReceived lowFirstConfig exampleFrame connectedState) = None"
    "rx (stats (handleDataReceived lowFirstConfig exampleFrame connectedState)) = 0"
    "invalid (stats (handleDataReceived lowFirstConfig exampleFrame connectedState)) = 1"
    "rxBuffer (handleDataReceived lowFirstConfig exampleFrame connectedState) = []"
    by (simp_all add: connectedState_eq)
  from config_facts e high low show ?thesis by blast
qed

text \<open>
  With the low byte first the frame of claim C3 is no valid measurement: its payload is
  25600, not 25700, and it is rejected by the range check.
\<close>

theorem exampleFrame_lowFirst_counterexample:
  "enableHeaderCheck lowFirstConfig \<and> \<not> rxIsBigEndian lowFirstConfig
   \<and> rxBuffer connectedState = []
   \<and> bytesToDecimal 0x64 0x00 = 25600
   \<and> lastReceivedValue (handleDataReceived lowFirstConfig exampleFrame connectedState) = None
   \<and> rx (stats (handleDataReceived lowFirstConfig exampleFrame connectedState)) = 0
   \<and> invalid (stats (handleDataReceived lowFirstConfig exampleFrame connectedState)) = 1"
  by code_simp

section \<open>Correlating a measurement with a frequency\<close>

text \<open>
  What \<open>Number(x.toFixed(4))\<close> does to a frequency: the result is a multiple of
  \<open>1 / 10000\<close> at most \<open>1 / 20000\<close> away from \<open>x\<close>.
\<close>

lemma round_half_up_close:
  fixes y :: rat
  shows "\<bar>of_int \<lfloor>y * 10000 + 1 / 2\<rfloor> / 10000 - y\<bar> \<le> 1 / 20000"
proof -
  define r :: rat where "r = of_int \<lfloor>y * 10000 + 1 / 2\<rfloor>"
  have lo: "r \<le> y * 10000 + 1 / 2" unfolding r_def by (rule of_int_floor_le)
  have hi: "y * 10000 + 1 / 2 < r + 1"
    unfolding r_def using floor_le_iff [of "y * 10000 + 1 / 2" "\<lfloor>y * 10000 + 1 / 2\<rfloor>"] by simp
  from lo hi have "\<bar>r / 10000 - y\<bar> \<le> 1 / 20000" by linarith
  then show ?thesis by (simp only: r_def)
qed

lemma numberToFixed4_rounds:
  assumes "\<bar>x\<bar> < 10 ^ 21"
  shows "(\<exists>n :: int. numberToFixed4 x = of_int n / 10000)
    \<and> \<bar>numberToFixed4 x - x\<bar> \<le> 1 / 20000"
proof (cases "x < 0")
  case True
  define r :: rat where "r = of_int \<lfloor>(- x) * 10000 + 1 / 2\<rfloor> / 10000"
  from True assms have eq: "numberToFixed4 x = - r"
    by (simp add: numberToFixed4_def r_def)
  have "numberToFixed4 x = of_int (- \<lfloor>(- x) * 10000 + 1 / 2\<rfloor>) / 10000"
    by (simp add: eq r_def)
  moreover have "\<bar>r - (- x)\<bar> \<le> 1 / 20000"
    unfolding r_def by (rule round_half_up_close)
  then have "\<bar>numberToFixed4 x - x\<bar> \<le> 1 / 20000"
    unfolding eq by linarith
  ultimately show ?thesis by blast
next
  case False
  define r :: rat where "r = of_int \<lfloor>x * 10000 + 1 / 2\<rfloor> / 10000"
  from False assms have eq: "numberToFixed4 x = r"
    by (simp add: numberToFixed4_def r_def)
  have "\<bar>r - x\<bar> \<le> 1 / 20000" unfolding r_def by (rule round_half_up_close)
  then have "\<bar>numberToFixed4 x - x\<bar> \<le> 1 / 20000" by (simp only: eq)
  moreover have "numberToFixed4 x = of_int \<lfloor>x * 10000 + 1 / 2\<rfloor> / 10000"
    by (simp only: eq r_def)
  ultimately show ?thesis by blast
qed

text \<open>
  Claim C1, as the code has it. When the strict-mode scan reaches a valid packet while a
  pending frequency is set, it clears \<open>waitingForResponseRef\<close> and \<open>isRetrying\<close>, adds
  one to the valid receive count and appends to the chart the pending frequency, rounded
  to four decimals, with the decoded value. The pending frequency stays set: nothing
  between two ticks clears it, so a second valid packet that arrives before the next
  tick is charted against the same frequency again.
\<close>

theorem valid_packet_recorded:
  assumes "ptr + PACKET_LEN \<le> length buffer" and "isHeader buffer ptr" and "isFooter buffer ptr"
    and "0 \<le> packetValue cfg buffer ptr \<and> packetValue cfg buffer ptr \<le> 4096"
    and "pendingFrequencyRef s = Some f"
    and "ptr' + PACKET_LEN \<le> length buffer'" and "isHeader buffer' ptr'"
    and "isFooter buffer' ptr'"
    and "0 \<le> packetValue cfg buffer' ptr' \<and> packetValue cfg buffer' ptr' \<le> 4096"
  shows "\<not> waitingForResponseRef (processRxBuffer_loop cfg buffer ptr s)
    \<and> \<not> isRetrying (processRxBuffer_loop cfg buffer ptr s)
    \<and> rx (stats (processRxBuffer_loop cfg buffer ptr s)) = rx (stats s) + 1
    \<and> chartData (processRxBuffer_loop cfg buffer ptr s) =
        chartData s @ [(numberToFixed4 f, packetValue cfg buffer ptr)]
    \<and> pendingFrequencyRef (processRxBuffer_loop cfg buffer ptr s) = Some f
    \<and> chartData (processRxBuffer_loop cfg buffer' ptr' (processRxBuffer_loop cfg buffer ptr s)) =
        chartData s @ [(numberToFixed4 f, packetValue cfg buffer ptr),
                       (numberToFixed4 f, packetValue cfg buffer' ptr')]"
proof -
  note first = valid_packet_effects [OF assms(1-4), of s]
  note second = valid_packet_effects [OF assms(6-9), of "processRxBuffer_loop cfg buffer ptr s"]
  from assms(5) show ?thesis
    by (simp add: first second)
qed

theorem valid_packet_recorded_witness:
  "0 + PACKET_LEN \<le> length exampleFrame \<and> isHeader exampleFrame 0 \<and> isFooter exampleFrame 0
   \<and> 0 \<le> packetValue sweepFrom1 exampleFrame 0 \<and> packetValue sweepFrom1 exampleFrame 0 \<le> 4096
   \<and> pendingFrequencyRef waitingAtOne = Some (125 / 256)
   \<and> pendingFrequencyRef (processRxBuffer_loop sweepFrom1 exampleFrame 0 waitingAtOne) =
       Some (125 / 256)
   \<and> chartData (processRxBuffer_loop sweepFrom1 exampleFrame 0
         (processRxBuffer_loop sweepFrom1 exampleFrame 0 waitingAtOne)) =
       [(4883 / 10000, 100), (4883 / 10000, 100)]"
proof -
  have len: "0 + PACKET_LEN \<le> length exampleFrame"
    by (simp add: exampleFrame_facts PACKET_LEN_def)
  have v: "packetValue sweepFrom1 exampleFrame 0 = 100"
    by (simp add: packetValue_exampleFrame config_facts)
  then have ok: "0 \<le> packetValue sweepFrom1 exampleFrame 0
      \<and> packetValue sweepFrom1 exampleFrame 0 \<le> 4096"
    by simp
  have p: "pendingFrequencyRef waitingAtOne = Some (125 / 256)"
    by (simp add: waitingAtOne_eq)
  from valid_packet_recorded [OF len exampleFrame_facts(2,3) ok p len exampleFrame_facts(2,3) ok]
  have "pendingFrequencyRef (processRxBuffer_loop sweepFrom1 exampleFrame 0 waitingAtOne) =
       Some (125 / 256)"
    "chartData (processRxBuffer_loop sweepFrom1 exampleFrame 0
         (processRxBuffer_loop sweepFrom1 exampleFrame 0 waitingAtOne)) =
       [(4883 / 10000, 100), (4883 / 10000, 100)]"
    by (simp_all add: v numberToFixed4_example waitingAtOne_eq)
  with len exampleFrame_facts(2,3) ok p show ?thesis by blast
qed

text \<open>
  The claim as first stated (the pending frequency is cleared, a second measurement is
  not charted against it) fails: after one command for counter value 1, two replies give
  two chart points at the same frequency.
\<close>

theorem valid_packet_recorded_counterexample:
  "pendingFrequencyRef waitingAtOne = Some (125 / 256)
   \<and> pendingFrequencyRef (handleDataReceived sweepFrom1 exampleFrame waitingAtOne) = Some (125 / 256)
   \<and> chartData (handleDataReceived sweepFrom1 exampleFrame
         (handleDataReceived sweepFrom1 exampleFrame waitingAtOne)) =
       [(4883 / 10000, 100), (4883 / 10000, 100)]"
  by code_simp




section \<open>Starting a sweep\<close>

lemma logs_addLog_nonempty: "logs (addLog k e s) \<noteq> []"
  by (simp add: addLog_def Let_def)

text \<open>
  Claim C2, as the code has it. Starting a sweep checks only that the start and end texts
  contain a hexadecimal digit: if one does not, start logs an error and changes nothing
  else, so nothing is transmitted and the sweep is not running. Otherwise the sweep is
  started, with the counter at the start value and nothing transmitted yet, also when
  start is above end; in that case the first tick finds the counter above the end,
  transmits nothing, logs "Sweep Complete." and stops the sweep.
\<close>

theorem toggleAutoSend_start:
  assumes "\<not> isAutoSending s"
  shows "(parseInt16 (stripNonHex (rangeStartHex cfg)) = None
          \<or> parseInt16 (stripNonHex (rangeEndHex cfg)) = None \<longrightarrow>
            toggleAutoSend cfg now s = addLog LogError InvalidStartEndHexValues s)
    \<and> (\<forall>startDec endDec.
          parseInt16 (stripNonHex (rangeStartHex cfg)) = Some startDec
          \<and> parseInt16 (stripNonHex (rangeEndHex cfg)) = Some endDec \<longrightarrow>
            isAutoSending (toggleAutoSend cfg now s)
          \<and> counterRef (toggleAutoSend cfg now s) = startDec
          \<and> wire (toggleAutoSend cfg now s) = wire s
          \<and> (startDec > endDec \<longrightarrow>
                wire (tickAutoSend cfg writeOk (toggleAutoSend cfg now s)) = wire s
              \<and> \<not> isAutoSending (tickAutoSend cfg writeOk (toggleAutoSend cfg now s))
              \<and> last (logs (tickAutoSend cfg writeOk (toggleAutoSend cfg now s))) =
                  (LogInfo, SweepComplete)))"
proof -
  have fail: "toggleAutoSend cfg now s = addLog LogError InvalidStartEndHexValues s"
    if "parseInt16 (stripNonHex (rangeStartHex cfg)) = None
        \<or> parseInt16 (stripNonHex (rangeEndHex cfg)) = None"
    using that assms by (auto simp: toggleAutoSend_def split: option.splits)
  have ok: "isAutoSending (toggleAutoSend cfg now s)
          \<and> counterRef (toggleAutoSend cfg now s) = startDec
          \<and> wire (toggleAutoSend cfg now s) = wire s
          \<and> (startDec > endDec \<longrightarrow>
                wire (tickAutoSend cfg writeOk (toggleAutoSend cfg now s)) = wire s
              \<and> \<not> isAutoSending (tickAutoSend cfg writeOk (toggleAutoSend cfg now s))
              \<and> last (logs (tickAutoSend cfg writeOk (toggleAutoSend cfg now s))) =
                  (LogInfo, SweepComplete))"
    if p: "parseInt16 (stripNonHex (rangeStartHex cfg)) = Some startDec
        \<and> parseInt16 (stripNonHex (rangeEndHex cfg)) = Some endDec" for startDec endDec
  proof -
    let ?t = "toggleAutoSend cfg now s"
    from p assms have t: "isAutoSending ?t" "counterRef ?t = startDec" "wire ?t = wire s"
      "\<not> waitingForResponseRef ?t"
      by (simp_all add: toggleAutoSend_def)
    have "tickAutoSend cfg writeOk ?t =
        addLog LogInfo SweepComplete (?t\<lparr>isRetrying := False, isAutoSending := False\<rparr>)"
      if "startDec > endDec"
      using that p t by (simp add: tickAutoSend_def Let_def)
    with t show ?thesis by (simp add: last_logs_addLog)
  qed
  from fail ok show ?thesis by blast
qed

text \<open>
  Start does not fail with start above end: the sweep is running afterwards.
\<close>

theorem start_reversed_range_counterexample:
  "\<not> isAutoSending connectedState
   \<and> parseInt16 (stripNonHex (rangeStartHex reversedRange)) = Some 5
   \<and> parseInt16 (stripNonHex (rangeEndHex reversedRange)) = Some 3
   \<and> isAutoSending (toggleAutoSend reversedRange 0 connectedState)
   \<and> last (logs (toggleAutoSend reversedRange 0 connectedState)) =
       (LogInfo, StartingSweep ''0005'' ''0003'' 3 0)"
  by code_simp

theorem toggleAutoSend_start_witness:
  "\<not> isAutoSending connectedState
   \<and> parseInt16 (stripNonHex (rangeStartHex reversedRange)) = Some 5
   \<and> parseInt16 (stripNonHex (rangeEndHex reversedRange)) = Some 3
   \<and> isAutoSending (toggleAutoSend reversedRange 0 connectedState)
   \<and> counterRef (toggleAutoSend reversedRange 0 connectedState) = 5
   \<and> wire (tickAutoSend reversedRange True (toggleAutoSend reversedRange 0 connectedState)) = []
   \<and> \<not> isAutoSending (tickAutoSend reversedRange True (toggleAutoSend reversedRange 0 connectedState))
   \<and> last (logs (tickAutoSend reversedRange True (toggleAutoSend reversedRange 0 connectedState))) =
       (LogInfo, SweepComplete)"
proof -
  have idle: "\<not> isAutoSending connectedState" "wire connectedState = []"
    by (simp_all add: connectedState_eq)
  have p: "parseInt16 (stripNonHex (rangeStartHex reversedRange)) = Some 5"
    "parseInt16 (stripNonHex (rangeEndHex reversedRange)) = Some 3"
    by code_simp+
  from toggleAutoSend_start [OF idle(1), of reversedRange 0 True] p idle(2)
  have "isAutoSending (toggleAutoSend reversedRange 0 connectedState)
   \<and> counterRef (toggleAutoSend reversedRange 0 connectedState) = 5
   \<and> wire (tickAutoSend reversedRange True (toggleAutoSend reversedRange 0 connectedState)) = []
   \<and> \<not> isAutoSending (tickAutoSend reversedRange True (toggleAutoSend reversedRange 0 connectedState))
   \<and> last (logs (tickAutoSend reversedRange True (toggleAutoSend reversedRange 0 connectedState))) =
       (LogInfo, SweepComplete)"
    by simp
  with idle(1) p show ?thesis by blast
qed

section \<open>A whole sweep\<close>

lemma sweepRun_Suc: "sweepRun (Suc n) = autoSendTimer sweep0to3 True (sweepRun n)"
  by (simp add: sweepRun_def)

lemma strictRun_Suc:
  "strictRun (Suc n) =
     handleDataReceived sweep0to3Strict exampleFrame (autoSendTimer sweep0to3Strict True (strictRun n))"
  by (simp add: strictRun_def)

lemma sweepRun_0:
  "sweepRun 0 =
     \<lparr>status = CONNECTED, writer = True,
      logs = [(LogInfo, Connected), (LogInfo, StartingSweep ''0000'' ''0003'' 3 2)],
      chartData = [], lastReceivedValue = None, isRxInvalid = False,
      stats = \<lparr>tx = 0, rx = 0, invalid = 0\<rparr>, startTimeRef = Some 0,
      isAutoSending = True, isRetrying = False, counterRef = 0,
      pendingFrequencyRef = None, lastSentHexRef = None,
      waitingForResponseRef = False, rxBuffer = [], wire = []\<rparr>"
  unfolding sweepRun_def funpow_0 by code_simp

lemma sweepRun_1:
  "sweepRun (Suc 0) =
     \<lparr>status = CONNECTED, writer = True,
      logs = [(LogInfo, Connected), (LogInfo, StartingSweep ''0000'' ''0003'' 3 2),
              (LogTx, Hex ''05 43 46 00 00 04 00 0D'')],
      chartData = [], lastReceivedValue = None, isRxInvalid = False,
      stats = \<lparr>tx = 1, rx = 0, invalid = 0\<rparr>, startTimeRef = Some 0,
      isAutoSending = True, isRetrying = False, counterRef = 3,
      pendingFrequencyRef = Some 0, lastSentHexRef = Some ''05 43 46 00 00 04 00 0D'',
      waitingForResponseRef = False, rxBuffer = [],
      wire = [[5, 67, 70, 0, 0, 4, 0, 13]]\<rparr>"
  unfolding sweepRun_Suc sweepRun_0 by code_simp

lemma sweepRun_2:
  "sweepRun (Suc (Suc 0)) =
     \<lparr>status = CONNECTED, writer = True,
      logs = [(LogInfo, Connected), (LogInfo, StartingSweep ''0000'' ''0003'' 3 2),
              (LogTx, Hex ''05 43 46 00 00 04 00 0D''),
              (LogTx, Hex ''05 43 46 00 03 04 00 0D'')],
      chartData = [], lastReceivedValue = None, isRxInvalid = False,
      stats = \<lparr>tx = 2, rx = 0, invalid = 0\<rparr>, startTimeRef = Some 0,
      isAutoSending = True, isRetrying = False, counterRef = 6,
      pendingFrequencyRef = Some (375 / 256),
      lastSentHexRef = Some ''05 43 46 00 03 04 00 0D'',
      waitingForResponseRef = False, rxBuffer = [],
      wire = [[5, 67, 70, 0, 0, 4, 0, 13], [5, 67, 70, 0, 3, 4, 0, 13]]\<rparr>"
  unfolding sweepRun_Suc [of "Suc 0"] sweepRun_1 by code_simp

lemma sweepRun_3:
  "sweepRun (Suc (Suc (Suc 0))) =
     \<lparr>status = CONNECTED, writer = True,
      logs = [(LogInfo, Connected), (LogInfo, StartingSweep ''0000'' ''0003'' 3 2),
              (LogTx, Hex ''05 43 46 00 00 04 00 0D''),
              (LogTx, Hex ''05 43 46 00 03 04 00 0D''), (LogInfo, SweepComplete)],
      chartData = [], lastReceivedValue = None, isRxInvalid = False,
      stats = \<lparr>tx = 2, rx = 0, invalid = 0\<rparr>, startTimeRef = Some 0,
      isAutoSending = False, isRetrying = False, counterRef = 6,
      pendingFrequencyRef = Some (375 / 256),
      lastSentHexRef = Some ''05 43 46 00 03 04 00 0D'',
      waitingForResponseRef = False, rxBuffer = [],
      wire = [[5, 67, 70, 0, 0, 4, 0, 13], [5, 67, 70, 0, 3, 4, 0, 13]]\<rparr>"
  unfolding sweepRun_Suc [of "Suc (Suc 0)"] sweepRun_2 by code_simp

lemma sweepRun_stopped: "sweepRun (3 + k) = sweepRun 3"
proof (induction k)
  case 0
  show ?case by simp
next
  case (Suc k)
  have stopped: "\<not> isAutoSending (sweepRun 3)" by (simp add: numeral_3_eq_3 sweepRun_3)
  have "sweepRun (3 + Suc k) = autoSendTimer sweep0to3 True (sweepRun (3 + k))"
    using sweepRun_Suc [of "3 + k"] by simp
  also have "\<dots> = sweepRun 3"
    using stopped by (simp add: Suc autoSendTimer_def)
  finally show ?case .
qed

lemma strictRun_0:
  "strictRun 0 =
     \<lparr>status = CONNECTED, writer = True,
      logs = [(LogInfo, Connected), (LogInfo, StartingSweep ''0000'' ''0003'' 3 2)],
      chartData = [], lastReceivedValue = None, isRxInvalid = False,
      stats = \<lparr>tx = 0, rx = 0, invalid = 0\<rparr>, startTimeRef = Some 0,
      isAutoSending = True, isRetrying = False, counterRef = 0,
      pendingFrequencyRef = None, lastSentHexRef = None,
      waitingForResponseRef = False, rxBuffer = [], wire = []\<rparr>"
  unfolding strictRun_def funpow_0 by code_simp

lemma strictRun_1:
  "strictRun (Suc 0) =
     \<lparr>status = CONNECTED, writer = True,
      logs = [(LogInfo, Connected), (LogInfo, StartingSweep ''0000'' ''0003'' 3 2),
              (LogTx, Hex ''05 43 46 00 00 04 00 0D''),
              (LogRx, Hex ''FF FE FD FC 02 56 00 64 AA BB CC FB FA F9 F8'')],
      chartData = [(0, 100)], lastReceivedValue = Some 100, isRxInvalid = False,
      stats = \<lparr>tx = 1, rx = 1, invalid = 0\<rparr>, startTimeRef = Some 0,
      isAutoSending = True, isRetrying = False, counterRef = 3,
      pendingFrequencyRef = Some 0, lastSentHexRef = Some ''05 43 46 00 00 04 00 0D'',
      waitingForResponseRef = False, rxBuffer = [],
      wire = [[5, 67, 70, 0, 0, 4, 0, 13]]\<rparr>"
  unfolding strictRun_Suc strictRun_0 by code_simp

lemma strictRun_2:
  "strictRun (Suc (Suc 0)) =
     \<lparr>status = CONNECTED, writer = True,
      logs = [(LogInfo, Connected), (LogInfo, StartingSweep ''0000'' ''0003'' 3 2),
              (LogTx, Hex ''05 43 46 00 00 04 00 0D''),
              (LogRx, Hex ''FF FE FD FC 02 56 00 64 AA BB CC FB FA F9 F8''),
              (LogTx, Hex ''05 43 46 00 03 04 00 0D''),
              (LogRx, Hex ''FF FE FD FC 02 56 00 64 AA BB CC FB FA F9 F8'')],
      chartData = [(0, 100), (1831 / 1250, 100)], lastReceivedValue = Some 100,
      isRxInvalid = False, stats = \<lparr>tx = 2, rx = 2, invalid = 0\<rparr>, startTimeRef = Some 0,
      isAutoSending = True, isRetrying = False, counterRef = 6,
      pendingFrequencyRef = Some (375 / 256),
      lastSentHexRef = Some ''05 43 46 00 03 04 00 0D'',
      waitingForResponseRef = False, rxBuffer = [],
      wire = [[5, 67, 70, 0, 0, 4, 0, 13], [5, 67, 70, 0, 3, 4, 0, 13]]\<rparr>"
  unfolding strictRun_Suc [of "Suc 0"] strictRun_1 by code_simp

lemma strictRun_done:
  "autoSendTimer sweep0to3Strict True (strictRun (Suc (Suc 0))) =
     (strictRun (Suc (Suc 0)))
       \<lparr>isAutoSending := False,
        logs := logs (strictRun (Suc (Suc 0))) @ [(LogInfo, SweepComplete)]\<rparr>"
  unfolding strictRun_2 by code_simp

text \<open>
  Claim C8. The sweep with start \<open>0x0000\<close>, end \<open>0x0003\<close> and step 3: the first two
  ticks transmit the commands for the counter values 0 and 3 (bytes \<open>00 00\<close> and \<open>00 03\<close>
  at offset 3 of the template); at the third tick the counter is 6, above the end, and the
  tick transmits nothing, logs "Sweep Complete." and clears \<open>isAutoSending\<close>, after which
  the timer no longer runs the tick. Shown without strict validation, where no tick waits,
  and in strict mode with every command answered by a valid frame.
\<close>

theorem sweep_0_to_3_step_3:
  "isAutoSending (sweepRun 0) \<and> counterRef (sweepRun 0) = 0 \<and> wire (sweepRun 0) = []
   \<and> wire (sweepRun 1) = [[0x05, 0x43, 0x46, 0x00, 0x00, 0x04, 0x00, 0x0D]]
   \<and> counterRef (sweepRun 1) = 3
   \<and> wire (sweepRun 2) = [[0x05, 0x43, 0x46, 0x00, 0x00, 0x04, 0x00, 0x0D],
                          [0x05, 0x43, 0x46, 0x00, 0x03, 0x04, 0x00, 0x0D]]
   \<and> counterRef (sweepRun 2) = 6 \<and> isAutoSending (sweepRun 2)
   \<and> parseInt16 (stripNonHex (rangeEndHex sweep0to3)) = Some 3
   \<and> wire (sweepRun 3) = wire (sweepRun 2) \<and> tx (stats (sweepRun 3)) = 2
   \<and> \<not> isAutoSending (sweepRun 3)
   \<and> logs (sweepRun 3) = logs (sweepRun 2) @ [(LogInfo, SweepComplete)]
   \<and> sweepRun (3 + k) = sweepRun 3
   \<and> wire (strictRun 2) = wire (sweepRun 2) \<and> counterRef (strictRun 2) = 6
   \<and> map snd (chartData (strictRun 2)) = [100, 100]
   \<and> autoSendTimer sweep0to3Strict True (strictRun 2) =
       (strictRun 2)\<lparr>isAutoSending := False,
                      logs := logs (strictRun 2) @ [(LogInfo, SweepComplete)]\<rparr>"
proof -
  have e: "parseInt16 (stripNonHex (rangeEndHex sweep0to3)) = Some 3" by code_simp
  have n: "(1::nat) = Suc 0" "(2::nat) = Suc (Suc 0)" "(3::nat) = Suc (Suc (Suc 0))"
    by simp_all
  have r: "sweepRun 1 = sweepRun (Suc 0)" "sweepRun 2 = sweepRun (Suc (Suc 0))"
    "sweepRun 3 = sweepRun (Suc (Suc (Suc 0)))" "strictRun 2 = strictRun (Suc (Suc 0))"
    by (simp_all only: n)
  have d: "autoSendTimer sweep0to3Strict True (strictRun 2) =
       (strictRun 2)\<lparr>isAutoSending := False,
                      logs := logs (strictRun 2) @ [(LogInfo, SweepComplete)]\<rparr>"
    unfolding r by (rule strictRun_done)
  have "isAutoSending (sweepRun 0) \<and> counterRef (sweepRun 0) = 0 \<and> wire (sweepRun 0) = []
   \<and> wire (sweepRun 1) = [[0x05, 0x43, 0x46, 0x00, 0x00, 0x04, 0x00, 0x0D]]
   \<and> counterRef (sweepRun 1) = 3
   \<and> wire (sweepRun 2) = [[0x05, 0x43, 0x46, 0x00, 0x00, 0x04, 0x00, 0x0D],
                          [0x05, 0x43, 0x46, 0x00, 0x03, 0x04, 0x00, 0x0D]]
   \<and> counterRef (sweepRun 2) = 6 \<and> isAutoSending (sweepRun 2)
   \<and> wire (sweepRun 3) = wire (sweepRun 2) \<and> tx (stats (sweepRun 3)) = 2
   \<and> \<not> isAutoSending (sweepRun 3)
   \<and> logs (sweepRun 3) = logs (sweepRun 2) @ [(LogInfo, SweepComplete)]
   \<and> wire (strictRun 2) = wire (sweepRun 2) \<and> counterRef (strictRun 2) = 6
   \<and> map snd (chartData (strictRun 2)) = [100, 100]"
    unfolding r by (simp add: sweepRun_0 sweepRun_1 sweepRun_2 sweepRun_3 strictRun_2)
  with e d sweepRun_stopped [of k] show ?thesis by blast
qed

theorem sweep_0_to_3_step_3_witness:
  "wire (sweepRun 8) = [[0x05, 0x43, 0x46, 0x00, 0x00, 0x04, 0x00, 0x0D],
                        [0x05, 0x43, 0x46, 0x00, 0x03, 0x04, 0x00, 0x0D]]
   \<and> tx (stats (sweepRun 8)) = 2 \<and> \<not> isAutoSending (sweepRun 8)"
proof -
  have "sweepRun 8 = sweepRun (3 + 5)" by simp
  with sweep_0_to_3_step_3 [of 5] show ?thesis by (simp only:) simp
qed

section \<open>Chunk boundaries\<close>

lemma parseAndRecord_logs:
  "parseAndRecord cfg b1 b2 (s\<lparr>logs := l\<rparr>) = (parseAndRecord cfg b1 b2 s)\<lparr>logs := l\<rparr>"
  by (simp add: parseAndRecord_def Let_def split: option.splits)

lemma parseAndRecord_flags:
  "parseAndRecord cfg b1 b2 (s\<lparr>isRxInvalid := i, lastReceivedValue := v\<rparr>) =
   parseAndRecord cfg b1 b2 s"
  by (simp add: parseAndRecord_def Let_def split: option.splits)

lemma stats_after_logs:
  "(s\<lparr>logs := l\<rparr>)\<lparr>stats := x\<rparr> = (s\<lparr>stats := x\<rparr>)\<lparr>logs := l\<rparr>"
  by simp

lemma stats_after_flags:
  "(s\<lparr>isRxInvalid := i, lastReceivedValue := v\<rparr>)\<lparr>stats := x\<rparr> =
   (s\<lparr>stats := x\<rparr>)\<lparr>isRxInvalid := i, lastReceivedValue := v\<rparr>"
  by simp

lemma loop_logs:
  "processRxBuffer_loop cfg buffer ptr (s\<lparr>logs := l\<rparr>) =
   (processRxBuffer_loop cfg buffer ptr s)\<lparr>logs := l\<rparr>"
proof (induction ptr s rule: scan_induct [where buffer = buffer])
  case (step ptr s)
  show ?case
  proof (cases rule: loop_cases [where ptr = ptr and buffer = buffer and cfg = cfg])
    case atEnd
    then show ?thesis by (simp add: loop_done Let_def)
  next
    case skip
    with step.IH(1) [of s] show ?thesis by (simp add: loop_skip)
  next
    case badFooter
    with step.IH(1) [of "s\<lparr>stats := (stats s)\<lparr>invalid := invalid (stats s) + 1\<rparr>\<rparr>"]
    show ?thesis by (simp add: loop_badFooter stats_after_logs)
  next
    case badRange
    with step.IH(2) [of "s\<lparr>stats := (stats s)\<lparr>invalid := invalid (stats s) + 1\<rparr>\<rparr>"]
    show ?thesis by (simp add: loop_badRange stats_after_logs)
  next
    case valid
    then show ?thesis by (simp add: loop_valid parseAndRecord_logs)
  qed
qed

lemma loop_flags:
  "waitingForResponseRef s \<Longrightarrow>
   processRxBuffer_loop cfg buffer ptr (s\<lparr>isRxInvalid := i, lastReceivedValue := v\<rparr>) =
   processRxBuffer_loop cfg buffer ptr s"
proof (induction ptr s rule: scan_induct [where buffer = buffer])
  case (step ptr s)
  show ?case
  proof (cases rule: loop_cases [where ptr = ptr and buffer = buffer and cfg = cfg])
    case atEnd
    with step.prems show ?thesis by (simp add: loop_done Let_def)
  next
    case skip
    with step.prems step.IH(1) [of s] show ?thesis by (simp add: loop_skip)
  next
    case badFooter
    with step.prems
      step.IH(1) [of "s\<lparr>stats := (stats s)\<lparr>invalid := invalid (stats s) + 1\<rparr>\<rparr>"]
    show ?thesis by (simp add: loop_badFooter stats_after_flags)
  next
    case badRange
    with step.prems
      step.IH(2) [of "s\<lparr>stats := (stats s)\<lparr>invalid := invalid (stats s) + 1\<rparr>\<rparr>"]
    show ?thesis by (simp add: loop_badRange stats_after_flags)
  next
    case valid
    then show ?thesis by (simp add: loop_valid parseAndRecord_flags)
  qed
qed

lemma split_chunks:
  assumes "enableHeaderCheck cfg" and "length (rxBuffer s) + length c1 < PACKET_LEN"
  shows "\<exists>l. handleDataReceived cfg c2 (handleDataReceived cfg c1 s) =
     (handleDataReceived cfg (c1 @ c2) s)\<lparr>logs := l\<rparr>"
proof -
  let ?b1 = "rxBuffer s @ c1"
  let ?s2 = "(addLog LogRx (Hex (uint8ArrayToHex c1)) s)\<lparr>rxBuffer := ?b1\<rparr>"
  let ?r1 = "if waitingForResponseRef s
             then ?s2\<lparr>isRxInvalid := True, lastReceivedValue := None\<rparr> else ?s2"
  from assms(2) have short: "\<not> 0 + PACKET_LEN \<le> length ?b1" by simp
  have first: "handleDataReceived cfg c1 s = ?r1"
    using assms(1) by (simp add: handleDataReceived_strict loop_done [OF short] Let_def)
  let ?b = "rxBuffer s @ c1 @ c2"
  let ?one = "(addLog LogRx (Hex (uint8ArrayToHex (c1 @ c2))) s)\<lparr>rxBuffer := ?b\<rparr>"
  let ?l = "logs (addLog LogRx (Hex (uint8ArrayToHex c2)) ?r1)"
  have second: "handleDataReceived cfg c2 ?r1 =
      processRxBuffer_loop cfg ?b 0
        ((addLog LogRx (Hex (uint8ArrayToHex c2)) ?r1)\<lparr>rxBuffer := ?b\<rparr>)"
    using assms(1) by (simp add: handleDataReceived_strict)
  have single: "handleDataReceived cfg (c1 @ c2) s = processRxBuffer_loop cfg ?b 0 ?one"
    using assms(1) by (simp add: handleDataReceived_strict)
  have "processRxBuffer_loop cfg ?b 0
        ((addLog LogRx (Hex (uint8ArrayToHex c2)) ?r1)\<lparr>rxBuffer := ?b\<rparr>) =
      (processRxBuffer_loop cfg ?b 0 ?one)\<lparr>logs := ?l\<rparr>"
  proof (cases "waitingForResponseRef s")
    case True
    then have "(addLog LogRx (Hex (uint8ArrayToHex c2)) ?r1)\<lparr>rxBuffer := ?b\<rparr> =
        (?one\<lparr>logs := ?l\<rparr>)\<lparr>isRxInvalid := True, lastReceivedValue := None\<rparr>"
      by (simp add: addLog_def Let_def)
    moreover from True have "waitingForResponseRef (?one\<lparr>logs := ?l\<rparr>)" by simp
    ultimately show ?thesis by (simp only: loop_flags loop_logs)
  next
    case False
    then have "(addLog LogRx (Hex (uint8ArrayToHex c2)) ?r1)\<lparr>rxBuffer := ?b\<rparr> = ?one\<lparr>logs := ?l\<rparr>"
      by (simp add: addLog_def Let_def)
    then show ?thesis by (simp only: loop_logs)
  qed
  then show ?thesis
    unfolding first second single by blast
qed

text \<open>
  Claim C7. In strict mode, a packet delivered in two chunks gives the same result as the
  packet delivered in one: whenever the buffer and the first chunk together are shorter
  than a packet (as for 7 bytes, then 8, on an empty buffer), the state after the two
  calls is the state after the single call with both chunks joined, in every field
  (measurement, statistics, chart, flags and the receive buffer) except the log, which
  has one line per chunk.
\<close>

theorem split_packet_same_result:
  assumes "enableHeaderCheck cfg" and "length (rxBuffer s) + length c1 < PACKET_LEN"
  shows "handleDataReceived cfg c2 (handleDataReceived cfg c1 s) =
     (handleDataReceived cfg (c1 @ c2) s)
       \<lparr>logs := logs (handleDataReceived cfg c2 (handleDataReceived cfg c1 s))\<rparr>"
proof -
  from split_chunks [OF assms] obtain l where
    l: "handleDataReceived cfg c2 (handleDataReceived cfg c1 s) =
        (handleDataReceived cfg (c1 @ c2) s)\<lparr>logs := l\<rparr>"
    by blast
  then have "logs (handleDataReceived cfg c2 (handleDataReceived cfg c1 s)) = l" by simp
  with l show ?thesis by simp
qed

lemma exampleFrame_received:
  "handleDataReceived defaultConfig exampleFrame connectedState =
     \<lparr>status = CONNECTED, writer = True,
      logs = [(LogInfo, Connected),
              (LogRx, Hex ''FF FE FD FC 02 56 00 64 AA BB CC FB FA F9 F8'')],
      chartData = [], lastReceivedValue = Some 100, isRxInvalid = False,
      stats = \<lparr>tx = 0, rx = 1, invalid = 0\<rparr>, startTimeRef = None,
      isAutoSending = False, isRetrying = False, counterRef = 0,
      pendingFrequencyRef = None, lastSentHexRef = None,
      waitingForResponseRef = False, rxBuffer = [], wire = []\<rparr>"
  by code_simp

theorem split_packet_same_result_witness:
  "enableHeaderCheck defaultConfig
   \<and> length (rxBuffer connectedState) + length (take 7 exampleFrame) < PACKET_LEN
   \<and> length (take 7 exampleFrame) = 7 \<and> length (drop 7 exampleFrame) = 8
   \<and> lastReceivedValue (handleDataReceived defaultConfig exampleFrame connectedState) = Some 100
   \<and> lastReceivedValue (handleDataReceived defaultConfig (drop 7 exampleFrame)
        (handleDataReceived defaultConfig (take 7 exampleFrame) connectedState)) = Some 100
   \<and> stats (handleDataReceived defaultConfig (drop 7 exampleFrame)
        (handleDataReceived defaultConfig (take 7 exampleFrame) connectedState)) =
       \<lparr>tx = 0, rx = 1, invalid = 0\<rparr>
   \<and> rxBuffer (handleDataReceived defaultConfig (drop 7 exampleFrame)
        (handleDataReceived defaultConfig (take 7 exampleFrame) connectedState)) = []"
proof -
  have h: "length (rxBuffer connectedState) + length (take 7 exampleFrame) < PACKET_LEN"
    "length (take 7 exampleFrame) = 7" "length (drop 7 exampleFrame) = 8"
    by (simp_all add: connectedState_eq exampleFrame_facts PACKET_LEN_def)
  let ?two = "handleDataReceived defaultConfig (drop 7 exampleFrame)
        (handleDataReceived defaultConfig (take 7 exampleFrame) connectedState)"
  from split_packet_same_result [OF config_facts(1) h(1), of "drop 7 exampleFrame"]
  have "?two = (handleDataReceived defaultConfig exampleFrame connectedState)\<lparr>logs := logs ?two\<rparr>"
    by (simp only: append_take_drop_id)
  then obtain l where
    "?two = (handleDataReceived defaultConfig exampleFrame connectedState)\<lparr>logs := l\<rparr>"
    by blast
  then have "lastReceivedValue ?two = Some 100" "stats ?two = \<lparr>tx = 0, rx = 1, invalid = 0\<rparr>"
    "rxBuffer ?two = []"
    by (simp_all add: exampleFrame_received)
  moreover have "lastReceivedValue (handleDataReceived defaultConfig exampleFrame connectedState) =
      Some 100"
    by (simp add: exampleFrame_received)
  ultimately show ?thesis using config_facts(1) h by blast
qed

end
